theory Spec2Isabelle
  imports Complex_Main "HOL-Library.Sublist" "HOL-Library.Monad_Syntax"
begin

section \<open>Evolutionary music studio: the generation engine\<close>

text \<open>
  A shallow embedding of the TypeScript sources \<^verbatim>\<open>engine/musicEngine.ts\<close>,
  \<^verbatim>\<open>evolution/evolutionEngine.ts\<close>, \<^verbatim>\<open>types/generation.ts\<close> and
  \<^verbatim>\<open>stores/sessionStore.ts\<close>.

  Conventions of the embedding.
  \<^item> A JavaScript \<^verbatim>\<open>number\<close> that the program receives is a finite number and is
    modelled as a \<^typ>\<open>real\<close>; rounding of floating point arithmetic is not modelled.
    The one place where the code can compute \<^verbatim>\<open>0/0\<close> (the variance of an empty
    array) is modelled with an explicit not-a-number value.
  \<^item> \<^verbatim>\<open>Math.random()\<close> is an injected stream \<open>rnd :: nat \<Rightarrow> draw\<close> together
    with a counter of the draws made so far; every function that draws returns the
    new counter. A \<open>draw\<close> is a real number in \<open>[0, 1)\<close>, the range of the generator.
  \<^item> A read \<^verbatim>\<open>xs[i]\<close> out of range yields \<^verbatim>\<open>undefined\<close> in JavaScript. Inside
    a template string this prints as the text \<^verbatim>\<open>undefined\<close>; where the source
    would store it in a typed field, the model returns \<open>None\<close> instead of an
    object outside its declared type.
  \<^item> Strings are byte strings; \<^verbatim>\<open>toLowerCase\<close> is modelled on the ASCII letters.
\<close>

subsection \<open>Strings\<close>

definition lowerChar :: "char \<Rightarrow> char" where
  "lowerChar c =
     (case map_of (zip ''ABCDEFGHIJKLMNOPQRSTUVWXYZ'' ''abcdefghijklmnopqrstuvwxyz'') c of
        Some d \<Rightarrow> d
      | None \<Rightarrow> c)"

definition toLowerCase :: "string \<Rightarrow> string" where
  "toLowerCase s = map lowerChar s"

text \<open>\<^verbatim>\<open>s.includes(t)\<close>: \<open>t\<close> occurs in \<open>s\<close> as a contiguous block.\<close>

fun str_includes :: "string \<Rightarrow> string \<Rightarrow> bool" where
  "str_includes [] t = (t = [])"
| "str_includes (c # cs) t = (prefix t (c # cs) \<or> str_includes cs t)"

text \<open>\<^verbatim>\<open>xs.join(sep)\<close>.\<close>

fun join :: "string list \<Rightarrow> string \<Rightarrow> string" where
  "join [] sep = []"
| "join [x] sep = x"
| "join (x # y # ys) sep = x @ sep @ join (y # ys) sep"


subsection \<open>The data model (\<^verbatim>\<open>types/generation.ts\<close>)\<close>

datatype error = NoCurrentGeneration | TypeError

datatype jsnum = Num real | NaN

record EmotionalVector =
  energy :: real
  tension :: real
  warmth :: real
  complexity :: real
  darkness :: real
  hope :: real
  chaos :: real
  space :: real

record CreativeReasoning =
  analysis :: string
  intention :: string
  strategy :: string
  reflection :: string

record FitnessScores =
  emotionalResonance :: jsnum
  coherence :: jsnum
  interest :: jsnum
  surprise :: jsnum
  technicalQuality :: jsnum

text \<open>The keys of \<open>FitnessScores\<close>, in the order in which the evaluator creates them.\<close>

datatype aspect = EmotionalResonance | Coherence | Interest | Surprise | TechnicalQuality

record Reverb =
  roomSize :: real
  dampening :: real
  reverb_wet :: real

record Delay =
  delayTime :: string
  feedback :: real
  delay_wet :: real

record FilterSettings =
  frequency :: real
  filter_type :: string
  rolloff :: real

record EffectSettings =
  reverb :: Reverb
  delay :: Delay
  filter_fx :: FilterSettings

datatype SynthType = Synth | Membrane | Metal | Noise | Fm | Am

record Oscillator =
  osc_type :: string

record Envelope =
  attack :: real
  decay :: real
  sustain :: real
  release :: real

record SynthSettings =
  synth_type :: SynthType
  oscillator :: Oscillator
  envelope :: Envelope
  volume :: real

record PatternDefinition =
  pattern_notes :: "string list"
  durations :: "string list"
  velocities :: "real list"
  timing :: "real list"

record MusicParameters =
  tempo :: real
  key :: string
  scale :: "string list"
  timeSignature :: "int \<times> int"
  effects :: EffectSettings
  synths :: "SynthSettings list"
  patterns :: "PatternDefinition list"

datatype MutationType = harmonic | rhythmic | timbral | structural | textural | radical

record MutationStrategy =
  strategy_type :: MutationType
  description :: string
  intensity :: real
  targets :: "string list"

text \<open>The optional \<^verbatim>\<open>audioBuffer\<close> of a generation is never written by the sources
  modelled here and is left out.\<close>

record Generation =
  gen_id :: string
  parentId :: "string option"
  generationNumber :: nat
  timestamp :: nat
  musicCode :: string
  musicParams :: MusicParameters
  creativeReasoning :: CreativeReasoning
  fitness :: FitnessScores
  prompt :: string
  mood :: EmotionalVector
  mutations :: "string list"
  lockedElements :: "string list"
  branch :: string
  tags :: "string list"

record SessionSettings =
  autonomyLevel :: real
  generationsToRun :: nat
  creativeTemperature :: real
  allowBranching :: bool

record SessionMemory =
  preferredMoods :: "EmotionalVector list"
  successfulMutations :: "string list"
  avoidedPatterns :: "string list"
  stylePreferences :: "(string \<times> real) list"

record Session =
  session_id :: string
  startTime :: nat
  lastUpdateTime :: nat
  initialPrompt :: string
  currentGeneration :: string
  generations :: "Generation list"
  settings :: SessionSettings
  memory :: SessionMemory

text \<open>The name of a mutation type, as it is stored in \<open>mutations\<close>.\<close>

fun type_name :: "MutationType \<Rightarrow> string" where
  "type_name harmonic = ''harmonic''"
| "type_name rhythmic = ''rhythmic''"
| "type_name timbral = ''timbral''"
| "type_name structural = ''structural''"
| "type_name textural = ''textural''"
| "type_name radical = ''radical''"

subsection \<open>The random source\<close>

typedef draw = "{x::real. 0 \<le> x \<and> x < 1}"
  morphisms draw_val Abs_draw
  by (rule exI[of _ 0]) simp

setup_lifting type_definition_draw

text \<open>A draw with a given value (0 when the value is not in range).\<close>

lift_definition mk_draw :: "real \<Rightarrow> draw" is "\<lambda>x. if 0 \<le> x \<and> x < 1 then x else 0"
  by simp

text \<open>\<^verbatim>\<open>Math.floor(Math.random() * n)\<close> and \<^verbatim>\<open>xs[Math.floor(Math.random() * xs.length)]\<close>.
  The index lies below \<open>n\<close> when \<open>0 < n\<close> (lemma \<open>random_index_less\<close>), so that the
  read is in range for the constant tables it is used on.\<close>

definition random_index :: "nat \<Rightarrow> draw \<Rightarrow> nat" where
  "random_index n d = nat \<lfloor>draw_val d * real n\<rfloor>"

definition pick :: "'a list \<Rightarrow> draw \<Rightarrow> 'a" where
  "pick xs d = xs ! random_index (length xs) d"

text \<open>A loop \<^verbatim>\<open>for (let i = i0; i < i0 + k; i++) { out.push(body(i)) }\<close> whose body
  pushes one element and updates the loop state \<open>s\<close> (the draw counter, and further
  variables of the loop).\<close>

fun for_loop :: "(nat \<Rightarrow> 's \<Rightarrow> 'a \<times> 's) \<Rightarrow> nat \<Rightarrow> nat \<Rightarrow> 's \<Rightarrow> 'a list \<times> 's" where
  "for_loop body i 0 s = ([], s)"
| "for_loop body i (Suc k) s =
     (let (x, s1) = body i s; (xs, s2) = for_loop body (Suc i) k s1 in (x # xs, s2))"

text \<open>\<^verbatim>\<open>xs.map(f)\<close> for a callback that draws: the elements are visited in order.\<close>

fun map_state :: "('a \<Rightarrow> 's \<Rightarrow> 'b \<times> 's) \<Rightarrow> 'a list \<Rightarrow> 's \<Rightarrow> 'b list \<times> 's" where
  "map_state f [] s = ([], s)"
| "map_state f (x # xs) s =
     (let (y, s1) = f x s; (ys, s2) = map_state f xs s1 in (y # ys, s2))"

subsection \<open>The parameter synthesizer (\<^verbatim>\<open>musicEngine.ts\<close>)\<close>



















subsection \<open>The mutation strategy selector (\<^verbatim>\<open>evolutionEngine.ts\<close>)\<close>

text \<open>
  \<^verbatim>\<open>Array.prototype.sort\<close> with a comparison function is a stable sort; a comparison
  that evaluates to not-a-number counts as 0. For a comparison that is not a
  consistent order (possible only with not-a-number scores) the language leaves the
  result to the implementation; the model then is a stable insertion sort.
\<close>

fun insert_sorted :: "('a \<Rightarrow> 'a \<Rightarrow> real) \<Rightarrow> 'a \<Rightarrow> 'a list \<Rightarrow> 'a list" where
  "insert_sorted cmp x [] = [x]"
| "insert_sorted cmp x (y # ys) =
     (if cmp x y < 0 then x # y # ys else y # insert_sorted cmp x ys)"

definition js_sort :: "('a \<Rightarrow> 'a \<Rightarrow> real) \<Rightarrow> 'a list \<Rightarrow> 'a list" where
  "js_sort cmp xs = foldl (\<lambda>acc x. insert_sorted cmp x acc) [] xs"

definition compare_entries :: "aspect \<times> jsnum \<Rightarrow> aspect \<times> jsnum \<Rightarrow> real" where
  "compare_entries a b =
     (case (snd a, snd b) of (Num x, Num y) \<Rightarrow> x - y | _ \<Rightarrow> 0)"

definition entries :: "FitnessScores \<Rightarrow> (aspect \<times> jsnum) list" where
  "entries f =
     [(EmotionalResonance, emotionalResonance f), (Coherence, coherence f),
      (Interest, interest f), (Surprise, surprise f),
      (TechnicalQuality, technicalQuality f)]"

definition findWeakestAspect :: "FitnessScores \<Rightarrow> aspect" where
  "findWeakestAspect f = fst (hd (js_sort compare_entries (entries f)))"

fun chooseTypeForAspect :: "aspect \<Rightarrow> MutationType" where
  "chooseTypeForAspect EmotionalResonance = timbral"
| "chooseTypeForAspect Coherence = structural"
| "chooseTypeForAspect Interest = rhythmic"
| "chooseTypeForAspect Surprise = harmonic"
| "chooseTypeForAspect TechnicalQuality = textural"

record FeedbackHints =
  suggestedMutation :: MutationType
  hint_intensity :: real

definition parseFeedback :: "string \<Rightarrow> FeedbackHints option" where
  "parseFeedback fb =
     (let lower = toLowerCase fb in
      if str_includes lower ''more energy'' \<or> str_includes lower ''faster''
      then Some \<lparr>suggestedMutation = rhythmic, hint_intensity = 0.7\<rparr>
      else if str_includes lower ''darker'' \<or> str_includes lower ''sadder''
      then Some \<lparr>suggestedMutation = harmonic, hint_intensity = 0.6\<rparr>
      else if str_includes lower ''simpler'' \<or> str_includes lower ''less''
      then Some \<lparr>suggestedMutation = structural, hint_intensity = 0.5\<rparr>
      else if str_includes lower ''weird'' \<or> str_includes lower ''experimental''
      then Some \<lparr>suggestedMutation = radical, hint_intensity = 0.9\<rparr>
      else None)"

definition describeMutation :: "MutationType \<Rightarrow> real \<Rightarrow> string" where
  "describeMutation t i =
     (let level = (if i > 0.7 then ''dramatic'' else if i > 0.4 then ''moderate'' else ''subtle'')
      in level @ '' '' @ type_name t @ '' mutation'')"

fun selectTargets :: "MutationType \<Rightarrow> MusicParameters \<Rightarrow> string list" where
  "selectTargets harmonic p = [''scale'', ''key'']"
| "selectTargets rhythmic p = [''tempo'', ''patterns.durations'']"
| "selectTargets timbral p = [''synths'', ''effects'']"
| "selectTargets structural p = [''patterns'', ''timeSignature'']"
| "selectTargets textural p = [''effects.reverb'', ''effects.delay'']"
| "selectTargets radical p = [''everything'']"

text \<open>The optional \<^verbatim>\<open>feedback\<close> argument is a \<open>string option\<close>; the test
  \<^verbatim>\<open>feedback ? ... : null\<close> also takes the empty string for absent.\<close>

definition truthy :: "string option \<Rightarrow> bool" where
  "truthy fb = (case fb of None \<Rightarrow> False | Some s \<Rightarrow> s \<noteq> [])"

definition chooseMutationStrategy ::
  "Generation \<Rightarrow> real \<Rightarrow> string option \<Rightarrow> MutationStrategy" where
  "chooseMutationStrategy parent temperature fb =
     (let weakestAspect = findWeakestAspect (fitness parent);
          feedbackHints = (if truthy fb then parseFeedback (the fb) else None);
          (t, i) =
            (case feedbackHints of
               Some h \<Rightarrow> (suggestedMutation h, hint_intensity h)
             | None \<Rightarrow>
                 if temperature > 0.8 then (radical, 0.7 + temperature * 0.3)
                 else (chooseTypeForAspect weakestAspect, 0.3 + temperature * 0.4))
      in \<lparr>strategy_type = t, description = describeMutation t i, intensity = i,
          targets = selectTargets t (musicParams parent)\<rparr>)"

subsection \<open>The mutation applicator: the value it returns\<close>

definition chromatic :: "string list" where
  "chromatic = [''C'', ''C#'', ''D'', ''D#'', ''E'', ''F'', ''F#'', ''G'', ''G#'', ''A'', ''A#'', ''B'']"

text \<open>\<^verbatim>\<open>xs[i] = v\<close> on an array: a write at \<open>i = xs.length\<close> extends the array. The
  only caller writes at an index \<open>i \<le> length xs\<close>.\<close>

definition array_set :: "'a list \<Rightarrow> nat \<Rightarrow> 'a \<Rightarrow> 'a list" where
  "array_set xs i v = (if i < length xs then xs[i := v] else xs @ [v])"

definition mutateScale ::
  "string list \<Rightarrow> real \<Rightarrow> (nat \<Rightarrow> draw) \<Rightarrow> nat \<Rightarrow> string list \<times> nat" where
  "mutateScale sc i rnd n =
     (if i < 0.3 then
        (let idx = random_index (length sc) (rnd n)
         in (array_set sc idx (pick chromatic (rnd (Suc n))), Suc (Suc n)))
      else (if i > 0.7 then [''C'', ''Db'', ''E'', ''F'', ''G'', ''Ab'', ''Bb'']
            else [''C'', ''D'', ''E'', ''F#'', ''G'', ''A'', ''B''], n))"

definition mutateKey :: "string \<Rightarrow> real \<Rightarrow> (nat \<Rightarrow> draw) \<Rightarrow> nat \<Rightarrow> string \<times> nat" where
  "mutateKey k i rnd n =
     (let allKeys = chromatic @ map (\<lambda>k. k @ ''m'') chromatic
      in if i < 0.4 then (if str_includes k ''m'' then ''Am'' else ''G'', n)
         else (pick allKeys (rnd n), Suc n))"

definition mutateTempo :: "real \<Rightarrow> real \<Rightarrow> (nat \<Rightarrow> draw) \<Rightarrow> nat \<Rightarrow> real \<times> nat" where
  "mutateTempo t i rnd n =
     (let change = (draw_val (rnd n) - 0.5) * i * 40
      in (max 40 (min 200 (t + change)), Suc n))"

definition alterDuration :: "string \<Rightarrow> (nat \<Rightarrow> draw) \<Rightarrow> nat \<Rightarrow> string \<times> nat" where
  "alterDuration d rnd n = (pick [''16n'', ''8n'', ''4n'', ''2n''] (rnd n), Suc n)"

text \<open>In the dramatic branch the callback reads \<^verbatim>\<open>durations[0]\<close>; the callback runs
  only for a non-empty array, and \<open>alterDuration\<close> ignores its argument.\<close>

definition mutateRhythm ::
  "string list \<Rightarrow> real \<Rightarrow> (nat \<Rightarrow> draw) \<Rightarrow> nat \<Rightarrow> string list \<times> nat" where
  "mutateRhythm ds i rnd n =
     (if i < 0.4
      then map_state (\<lambda>d n. if draw_val (rnd n) < 0.3 then alterDuration d rnd (Suc n)
                             else (d, Suc n)) ds n
      else map_state (\<lambda>d n. alterDuration (hd ds) rnd n) ds n)"

definition mutateSynth ::
  "SynthSettings \<Rightarrow> real \<Rightarrow> (nat \<Rightarrow> draw) \<Rightarrow> nat \<Rightarrow> SynthSettings \<times> nat" where
  "mutateSynth sy i rnd n =
     (let (osc, n1) =
            (if i > 0.5
             then (\<lparr>osc_type = pick [''sine'', ''triangle'', ''sawtooth'', ''square''] (rnd n)\<rparr>,
                   Suc n)
             else (oscillator sy, n));
          env = envelope sy;
          env1 = env\<lparr>attack := attack env + (draw_val (rnd n1) - 0.5) * i * 0.5\<rparr>;
          env2 = env1\<lparr>release := release env1 + (draw_val (rnd (Suc n1)) - 0.5) * i * 1.0\<rparr>
      in (sy\<lparr>oscillator := osc, envelope := env2\<rparr>, Suc (Suc n1)))"

definition mutateEffects ::
  "EffectSettings \<Rightarrow> real \<Rightarrow> (nat \<Rightarrow> draw) \<Rightarrow> nat \<Rightarrow> EffectSettings \<times> nat" where
  "mutateEffects fx i rnd n =
     (let rv = reverb fx;
          room = roomSize rv + (draw_val (rnd n) - 0.5) * i * 0.5;
          rv1 = rv\<lparr>roomSize := max 0.1 (min 0.9 room)\<rparr>;
          dl = delay fx;
          fb = feedback dl + (draw_val (rnd (Suc n)) - 0.5) * i * 0.3;
          dl1 = dl\<lparr>feedback := max 0 (min 0.9 fb)\<rparr>
      in (fx\<lparr>reverb := rv1, delay := dl1\<rparr>, Suc (Suc n)))"

definition generateRadicalScale :: "(nat \<Rightarrow> draw) \<Rightarrow> nat \<Rightarrow> string list \<times> nat" where
  "generateRadicalScale rnd n =
     (let len = 5 + random_index 3 (rnd n)
      in for_loop (\<lambda>i n. (pick chromatic (rnd n), Suc n)) 0 len (Suc n))"

text \<open>The structural mutation of the layers. \<open>orig\<close> is \<^verbatim>\<open>params.patterns\<close>, \<open>ps\<close> the
  copy in \<^verbatim>\<open>newParams\<close>. \<open>None\<close>: \<^verbatim>\<open>params.patterns[0]\<close> does not exist and the source
  pushes \<^verbatim>\<open>undefined\<close>.\<close>

definition mutateLayers ::
  "PatternDefinition list \<Rightarrow> PatternDefinition list \<Rightarrow> real \<Rightarrow> PatternDefinition list option" where
  "mutateLayers orig ps i =
     (if i > 0.6 \<and> length ps > 1 then Some (butlast ps)
      else if i > 0.7 \<and> length ps < 4 then
        (case orig of [] \<Rightarrow> None | p0 # _ \<Rightarrow> Some (ps @ [p0]))
      else Some ps)"

text \<open>
  \<open>applyMutation\<close> gives the value of the object that the source returns: the deep
  clone of \<open>params\<close> (a serialisation round trip, the identity on values of the data
  model) with the fields of the mutation replaced. What the call does to the
  objects of its argument is the subject of the store model further down.
\<close>

definition applyMutation ::
  "MusicParameters \<Rightarrow> MutationStrategy \<Rightarrow> string list \<Rightarrow> (nat \<Rightarrow> draw) \<Rightarrow> nat
     \<Rightarrow> (MusicParameters \<times> nat) option" where
  "applyMutation params st locked rnd n =
     (let newParams = params; i = intensity st in
      case strategy_type st of
        harmonic \<Rightarrow>
          (let (np1, n1) =
                 (if ''scale'' \<notin> set locked
                  then (let (sc, m) = mutateScale (scale params) i rnd n
                        in (newParams\<lparr>scale := sc\<rparr>, m))
                  else (newParams, n));
               (np2, n2) =
                 (if ''key'' \<notin> set locked
                  then (let (k, m) = mutateKey (key params) i rnd n1 in (np1\<lparr>key := k\<rparr>, m))
                  else (np1, n1))
           in Some (np2, n2))
      | rhythmic \<Rightarrow>
          (let (np1, n1) =
                 (if ''tempo'' \<notin> set locked
                  then (let (t, m) = mutateTempo (tempo params) i rnd n
                        in (newParams\<lparr>tempo := t\<rparr>, m))
                  else (newParams, n));
               (np2, n2) =
                 (if ''patterns'' \<notin> set locked
                  then (let (ps, m) =
                              map_state (\<lambda>p n. let (ds, m) = mutateRhythm (durations p) i rnd n
                                                in (p\<lparr>durations := ds\<rparr>, m))
                                (patterns params) n1
                        in (np1\<lparr>patterns := ps\<rparr>, m))
                  else (np1, n1))
           in Some (np2, n2))
      | timbral \<Rightarrow>
          (let (np1, n1) =
                 (if ''synths'' \<notin> set locked
                  then (let (sy, m) = map_state (\<lambda>s n. mutateSynth s i rnd n) (synths params) n
                        in (newParams\<lparr>synths := sy\<rparr>, m))
                  else (newParams, n));
               (np2, n2) =
                 (if ''effects'' \<notin> set locked
                  then (let (fx, m) = mutateEffects (effects params) i rnd n1
                        in (np1\<lparr>effects := fx\<rparr>, m))
                  else (np1, n1))
           in Some (np2, n2))
      | structural \<Rightarrow>
          (if ''patterns'' \<notin> set locked
           then (case mutateLayers (patterns params) (patterns newParams) i of
                   None \<Rightarrow> None
                 | Some ps \<Rightarrow> Some (newParams\<lparr>patterns := ps\<rparr>, n))
           else Some (newParams, n))
      | textural \<Rightarrow>
          (if ''effects'' \<notin> set locked
           then (let fx = effects newParams;
                     rv = reverb fx;
                     rv1 = rv\<lparr>reverb_wet := reverb_wet rv + (draw_val (rnd n) - 0.5) * i * 0.3\<rparr>;
                     dl = delay fx;
                     dl1 = dl\<lparr>delay_wet := delay_wet dl
                                    + (draw_val (rnd (Suc n)) - 0.5) * i * 0.2\<rparr>
                 in Some (newParams\<lparr>effects := fx\<lparr>reverb := rv1, delay := dl1\<rparr>\<rparr>,
                          Suc (Suc n)))
           else Some (newParams, n))
      | radical \<Rightarrow>
          (let (np1, n1) =
                 (if ''scale'' \<notin> set locked
                  then (let (sc, m) = generateRadicalScale rnd n in (newParams\<lparr>scale := sc\<rparr>, m))
                  else (newParams, n));
               (np2, n2) =
                 (if ''tempo'' \<notin> set locked
                  then (np1\<lparr>tempo := 40 + draw_val (rnd n1) * 160\<rparr>, Suc n1)
                  else (np1, n1))
           in Some (np2, n2)))"

subsection \<open>The mutation applicator on the object store\<close>

text \<open>
  JavaScript objects and arrays have identity: \<^verbatim>\<open>{...synth}\<close> copies the fields of a
  synth, among them the references to its oscillator and envelope objects, and a
  write through such a reference is seen by every object that holds it. The store
  maps addresses to objects; a field that holds an object or an array holds its
  address. \<^verbatim>\<open>JSON.stringify\<close> reads the value of an object graph out of the store
  (\<open>load_params\<close>), \<^verbatim>\<open>JSON.parse\<close> allocates a fresh graph for a value
  (\<open>store_params\<close>).
\<close>

type_synonym addr = nat

record ParamsCell =
  c_tempo :: real
  c_key :: string
  c_scale :: addr
  c_timeSignature :: addr
  c_effects :: addr
  c_synths :: addr
  c_patterns :: addr

record EffectsCell =
  c_reverb :: addr
  c_delay :: addr
  c_filter :: addr

record SynthCell =
  c_synth_type :: SynthType
  c_oscillator :: addr
  c_envelope :: addr
  c_volume :: real

record PatternCell =
  c_notes :: addr
  c_durations :: addr
  c_velocities :: addr
  c_timing :: addr

datatype obj =
    ParamsObj ParamsCell
  | StringArray "string list"
  | NumberArray "real list"
  | SignatureArray "int \<times> int"
  | RefArray "addr list"
  | EffectsObj EffectsCell
  | ReverbObj Reverb
  | DelayObj Delay
  | FilterObj FilterSettings
  | SynthObj SynthCell
  | OscillatorObj Oscillator
  | EnvelopeObj Envelope
  | PatternObj PatternCell

record heap =
  cells :: "addr \<Rightarrow> obj option"
  next_free :: addr

definition empty_heap :: heap where
  "empty_heap = \<lparr>cells = (\<lambda>a. None), next_free = 0\<rparr>"

definition alloc :: "obj \<Rightarrow> heap \<Rightarrow> addr \<times> heap" where
  "alloc ob h =
     (next_free h, h\<lparr>cells := (cells h)(next_free h \<mapsto> ob), next_free := Suc (next_free h)\<rparr>)"

definition put :: "addr \<Rightarrow> obj \<Rightarrow> heap \<Rightarrow> heap" where
  "put a ob h = h\<lparr>cells := (cells h)(a \<mapsto> ob)\<rparr>"

text \<open>Typed reads: \<open>None\<close> when the address holds no object of the expected kind.\<close>

definition get_params :: "heap \<Rightarrow> addr \<Rightarrow> ParamsCell option" where
  "get_params h a = (case cells h a of Some (ParamsObj c) \<Rightarrow> Some c | _ \<Rightarrow> None)"

definition get_strings :: "heap \<Rightarrow> addr \<Rightarrow> string list option" where
  "get_strings h a = (case cells h a of Some (StringArray xs) \<Rightarrow> Some xs | _ \<Rightarrow> None)"

definition get_numbers :: "heap \<Rightarrow> addr \<Rightarrow> real list option" where
  "get_numbers h a = (case cells h a of Some (NumberArray xs) \<Rightarrow> Some xs | _ \<Rightarrow> None)"

definition get_signature :: "heap \<Rightarrow> addr \<Rightarrow> (int \<times> int) option" where
  "get_signature h a = (case cells h a of Some (SignatureArray x) \<Rightarrow> Some x | _ \<Rightarrow> None)"

definition get_refs :: "heap \<Rightarrow> addr \<Rightarrow> addr list option" where
  "get_refs h a = (case cells h a of Some (RefArray xs) \<Rightarrow> Some xs | _ \<Rightarrow> None)"

definition get_effects :: "heap \<Rightarrow> addr \<Rightarrow> EffectsCell option" where
  "get_effects h a = (case cells h a of Some (EffectsObj c) \<Rightarrow> Some c | _ \<Rightarrow> None)"

definition get_reverb :: "heap \<Rightarrow> addr \<Rightarrow> Reverb option" where
  "get_reverb h a = (case cells h a of Some (ReverbObj c) \<Rightarrow> Some c | _ \<Rightarrow> None)"

definition get_delay :: "heap \<Rightarrow> addr \<Rightarrow> Delay option" where
  "get_delay h a = (case cells h a of Some (DelayObj c) \<Rightarrow> Some c | _ \<Rightarrow> None)"

definition get_filter :: "heap \<Rightarrow> addr \<Rightarrow> FilterSettings option" where
  "get_filter h a = (case cells h a of Some (FilterObj c) \<Rightarrow> Some c | _ \<Rightarrow> None)"

definition get_synth :: "heap \<Rightarrow> addr \<Rightarrow> SynthCell option" where
  "get_synth h a = (case cells h a of Some (SynthObj c) \<Rightarrow> Some c | _ \<Rightarrow> None)"

definition get_oscillator :: "heap \<Rightarrow> addr \<Rightarrow> Oscillator option" where
  "get_oscillator h a = (case cells h a of Some (OscillatorObj c) \<Rightarrow> Some c | _ \<Rightarrow> None)"

definition get_envelope :: "heap \<Rightarrow> addr \<Rightarrow> Envelope option" where
  "get_envelope h a = (case cells h a of Some (EnvelopeObj c) \<Rightarrow> Some c | _ \<Rightarrow> None)"

definition get_pattern :: "heap \<Rightarrow> addr \<Rightarrow> PatternCell option" where
  "get_pattern h a = (case cells h a of Some (PatternObj c) \<Rightarrow> Some c | _ \<Rightarrow> None)"

text \<open>Reading values out of the store.\<close>

definition load_effects :: "heap \<Rightarrow> addr \<Rightarrow> EffectSettings option" where
  "load_effects h a =
     do { c \<leftarrow> get_effects h a;
          r \<leftarrow> get_reverb h (c_reverb c);
          d \<leftarrow> get_delay h (c_delay c);
          f \<leftarrow> get_filter h (c_filter c);
          Some \<lparr>reverb = r, delay = d, filter_fx = f\<rparr> }"

definition load_synth :: "heap \<Rightarrow> addr \<Rightarrow> SynthSettings option" where
  "load_synth h a =
     do { c \<leftarrow> get_synth h a;
          os \<leftarrow> get_oscillator h (c_oscillator c);
          en \<leftarrow> get_envelope h (c_envelope c);
          Some \<lparr>synth_type = c_synth_type c, oscillator = os, envelope = en,
                volume = c_volume c\<rparr> }"

definition load_pattern :: "heap \<Rightarrow> addr \<Rightarrow> PatternDefinition option" where
  "load_pattern h a =
     do { c \<leftarrow> get_pattern h a;
          ns \<leftarrow> get_strings h (c_notes c);
          ds \<leftarrow> get_strings h (c_durations c);
          vs \<leftarrow> get_numbers h (c_velocities c);
          ts \<leftarrow> get_numbers h (c_timing c);
          Some \<lparr>pattern_notes = ns, durations = ds, velocities = vs, timing = ts\<rparr> }"

definition load_synths :: "heap \<Rightarrow> addr \<Rightarrow> SynthSettings list option" where
  "load_synths h a = do { rs \<leftarrow> get_refs h a; those (map (load_synth h) rs) }"

definition load_patterns :: "heap \<Rightarrow> addr \<Rightarrow> PatternDefinition list option" where
  "load_patterns h a = do { rs \<leftarrow> get_refs h a; those (map (load_pattern h) rs) }"

definition load_params :: "heap \<Rightarrow> addr \<Rightarrow> MusicParameters option" where
  "load_params h a =
     do { c \<leftarrow> get_params h a;
          sc \<leftarrow> get_strings h (c_scale c);
          ts \<leftarrow> get_signature h (c_timeSignature c);
          fx \<leftarrow> load_effects h (c_effects c);
          sy \<leftarrow> load_synths h (c_synths c);
          ps \<leftarrow> load_patterns h (c_patterns c);
          Some \<lparr>tempo = c_tempo c, key = c_key c, scale = sc, timeSignature = ts,
                effects = fx, synths = sy, patterns = ps\<rparr> }"

text \<open>Allocating a fresh object graph for a value.\<close>

definition store_effects :: "EffectSettings \<Rightarrow> heap \<Rightarrow> addr \<times> heap" where
  "store_effects fx h =
     (let (r, h1) = alloc (ReverbObj (reverb fx)) h;
          (d, h2) = alloc (DelayObj (delay fx)) h1;
          (f, h3) = alloc (FilterObj (filter_fx fx)) h2
      in alloc (EffectsObj \<lparr>c_reverb = r, c_delay = d, c_filter = f\<rparr>) h3)"

definition store_synth :: "SynthSettings \<Rightarrow> heap \<Rightarrow> addr \<times> heap" where
  "store_synth s h =
     (let (os, h1) = alloc (OscillatorObj (oscillator s)) h;
          (en, h2) = alloc (EnvelopeObj (envelope s)) h1
      in alloc (SynthObj \<lparr>c_synth_type = synth_type s, c_oscillator = os, c_envelope = en,
                          c_volume = volume s\<rparr>) h2)"

definition store_pattern :: "PatternDefinition \<Rightarrow> heap \<Rightarrow> addr \<times> heap" where
  "store_pattern p h =
     (let (ns, h1) = alloc (StringArray (pattern_notes p)) h;
          (ds, h2) = alloc (StringArray (durations p)) h1;
          (vs, h3) = alloc (NumberArray (velocities p)) h2;
          (ts, h4) = alloc (NumberArray (timing p)) h3
      in alloc (PatternObj \<lparr>c_notes = ns, c_durations = ds, c_velocities = vs,
                            c_timing = ts\<rparr>) h4)"

definition store_params :: "MusicParameters \<Rightarrow> heap \<Rightarrow> addr \<times> heap" where
  "store_params p h =
     (let (sc, h1) = alloc (StringArray (scale p)) h;
          (ts, h2) = alloc (SignatureArray (timeSignature p)) h1;
          (fx, h3) = store_effects (effects p) h2;
          (srefs, h4) = map_state store_synth (synths p) h3;
          (sy, h5) = alloc (RefArray srefs) h4;
          (prefs, h6) = map_state store_pattern (patterns p) h5;
          (ps, h7) = alloc (RefArray prefs) h6
      in alloc (ParamsObj \<lparr>c_tempo = tempo p, c_key = key p, c_scale = sc,
                           c_timeSignature = ts, c_effects = fx, c_synths = sy,
                           c_patterns = ps\<rparr>) h7)"

text \<open>\<^verbatim>\<open>xs.map(f)\<close> for a callback that may fail and that changes a state.\<close>

fun map_state_opt ::
  "('a \<Rightarrow> 's \<Rightarrow> ('b \<times> 's) option) \<Rightarrow> 'a list \<Rightarrow> 's \<Rightarrow> ('b list \<times> 's) option" where
  "map_state_opt f [] s = Some ([], s)"
| "map_state_opt f (x # xs) s =
     do { (y, s1) \<leftarrow> f x s;
          (ys, s2) \<leftarrow> map_state_opt f xs s1;
          Some (y # ys, s2) }"

text \<open>An assignment \<^verbatim>\<open>obj.field = v\<close> to a field of a parameters object.\<close>

definition set_params :: "addr \<Rightarrow> (ParamsCell \<Rightarrow> ParamsCell) \<Rightarrow> heap \<Rightarrow> heap option" where
  "set_params a f h = do { c \<leftarrow> get_params h a; Some (put a (ParamsObj (f c)) h) }"

text \<open>
  \<open>mutateSynth\<close>: the new synth is a copy of the fields of the old one, so its
  oscillator and envelope are the objects of the old synth, and the three
  assignments write to those.
\<close>

definition mutateSynth_store ::
  "real \<Rightarrow> (nat \<Rightarrow> draw) \<Rightarrow> addr \<Rightarrow> nat \<times> heap \<Rightarrow> (addr \<times> (nat \<times> heap)) option" where
  "mutateSynth_store i rnd synth s =
     (let (n, h) = s in
      do { c \<leftarrow> get_synth h synth;
           let (newSynth, h1) = alloc (SynthObj c) h;
           (n1, h2) \<leftarrow>
             (if i > 0.5
              then do { os \<leftarrow> get_oscillator h1 (c_oscillator c);
                        Some (Suc n,
                              put (c_oscillator c)
                                (OscillatorObj (os\<lparr>osc_type :=
                                   pick [''sine'', ''triangle'', ''sawtooth'', ''square'']
                                     (rnd n)\<rparr>)) h1) }
              else Some (n, h1));
           en \<leftarrow> get_envelope h2 (c_envelope c);
           let h3 = put (c_envelope c)
                      (EnvelopeObj (en\<lparr>attack :=
                         attack en + (draw_val (rnd n1) - 0.5) * i * 0.5\<rparr>)) h2;
           en1 \<leftarrow> get_envelope h3 (c_envelope c);
           let h4 = put (c_envelope c)
                      (EnvelopeObj (en1\<lparr>release :=
                         release en1 + (draw_val (rnd (Suc n1)) - 0.5) * i * 1.0\<rparr>)) h3;
           Some (newSynth, (Suc (Suc n1), h4)) })"

text \<open>The callback of the rhythmic mutation: a copy of the fields of the pattern with
  a new durations array.\<close>

definition mutatePattern_store ::
  "real \<Rightarrow> (nat \<Rightarrow> draw) \<Rightarrow> addr \<Rightarrow> nat \<times> heap \<Rightarrow> (addr \<times> (nat \<times> heap)) option" where
  "mutatePattern_store i rnd pat s =
     (let (n, h) = s in
      do { c \<leftarrow> get_pattern h pat;
           ds \<leftarrow> get_strings h (c_durations c);
           let (ds1, n1) = mutateRhythm ds i rnd n;
           let (d, h1) = alloc (StringArray ds1) h;
           let (newPattern, h2) = alloc (PatternObj (c\<lparr>c_durations := d\<rparr>)) h1;
           Some (newPattern, (n1, h2)) })"

text \<open>
  \<open>applyMutation_store h params st locked rnd n\<close> runs the applicator on the object
  at address \<open>params\<close> of the store \<open>h\<close>. It returns the store after the call, the
  address of the returned object and the draw counter. \<open>None\<close>: the store does not
  hold a parameters graph at \<open>params\<close>, or \<^verbatim>\<open>undefined\<close> is pushed as a layer.
\<close>

definition applyMutation_store ::
  "heap \<Rightarrow> addr \<Rightarrow> MutationStrategy \<Rightarrow> string list \<Rightarrow> (nat \<Rightarrow> draw) \<Rightarrow> nat
     \<Rightarrow> (heap \<times> addr \<times> nat) option" where
  "applyMutation_store h params st locked rnd n =
     do { p \<leftarrow> load_params h params;
          let (newParams, h1) = store_params p h;
          let i = intensity st;
          pc \<leftarrow> get_params h1 params;
          case strategy_type st of
            harmonic \<Rightarrow>
              do { (n1, h2) \<leftarrow>
                     (if ''scale'' \<notin> set locked
                      then do { sc \<leftarrow> get_strings h1 (c_scale pc);
                                let (sc1, m) = mutateScale sc i rnd n;
                                let (a, h') = alloc (StringArray sc1) h1;
                                h'' \<leftarrow> set_params newParams (\<lambda>c. c\<lparr>c_scale := a\<rparr>) h';
                                Some (m, h'') }
                      else Some (n, h1));
                   (n2, h3) \<leftarrow>
                     (if ''key'' \<notin> set locked
                      then do { let (k, m) = mutateKey (c_key pc) i rnd n1;
                                h' \<leftarrow> set_params newParams (\<lambda>c. c\<lparr>c_key := k\<rparr>) h2;
                                Some (m, h') }
                      else Some (n1, h2));
                   Some (h3, newParams, n2) }
          | rhythmic \<Rightarrow>
              do { (n1, h2) \<leftarrow>
                     (if ''tempo'' \<notin> set locked
                      then do { let (t, m) = mutateTempo (c_tempo pc) i rnd n;
                                h' \<leftarrow> set_params newParams (\<lambda>c. c\<lparr>c_tempo := t\<rparr>) h1;
                                Some (m, h') }
                      else Some (n, h1));
                   (n2, h3) \<leftarrow>
                     (if ''patterns'' \<notin> set locked
                      then do { rs \<leftarrow> get_refs h2 (c_patterns pc);
                                (rs1, (m, h')) \<leftarrow>
                                  map_state_opt (mutatePattern_store i rnd) rs (n1, h2);
                                let (a, h'') = alloc (RefArray rs1) h';
                                h''' \<leftarrow> set_params newParams (\<lambda>c. c\<lparr>c_patterns := a\<rparr>) h'';
                                Some (m, h''') }
                      else Some (n1, h2));
                   Some (h3, newParams, n2) }
          | timbral \<Rightarrow>
              do { (n1, h2) \<leftarrow>
                     (if ''synths'' \<notin> set locked
                      then do { rs \<leftarrow> get_refs h1 (c_synths pc);
                                (rs1, (m, h')) \<leftarrow>
                                  map_state_opt (mutateSynth_store i rnd) rs (n, h1);
                                let (a, h'') = alloc (RefArray rs1) h';
                                h''' \<leftarrow> set_params newParams (\<lambda>c. c\<lparr>c_synths := a\<rparr>) h'';
                                Some (m, h''') }
                      else Some (n, h1));
                   (n2, h3) \<leftarrow>
                     (if ''effects'' \<notin> set locked
                      then do { fx \<leftarrow> load_effects h2 (c_effects pc);
                                let (fx1, m) = mutateEffects fx i rnd n1;
                                let (a, h') = store_effects fx1 h2;
                                h'' \<leftarrow> set_params newParams (\<lambda>c. c\<lparr>c_effects := a\<rparr>) h';
                                Some (m, h'') }
                      else Some (n1, h2));
                   Some (h3, newParams, n2) }
          | structural \<Rightarrow>
              (if ''patterns'' \<notin> set locked
               then do { nc \<leftarrow> get_params h1 newParams;
                         layers \<leftarrow> get_refs h1 (c_patterns nc);
                         if i > 0.6 \<and> length layers > 1
                         then Some (put (c_patterns nc) (RefArray (butlast layers)) h1,
                                    newParams, n)
                         else if i > 0.7 \<and> length layers < 4
                         then do { orig \<leftarrow> get_refs h1 (c_patterns pc);
                                   case orig of
                                     [] \<Rightarrow> None
                                   | first # _ \<Rightarrow>
                                       Some (put (c_patterns nc) (RefArray (layers @ [first])) h1,
                                             newParams, n) }
                         else Some (h1, newParams, n) }
               else Some (h1, newParams, n))
          | textural \<Rightarrow>
              (if ''effects'' \<notin> set locked
               then do { nc \<leftarrow> get_params h1 newParams;
                         fc \<leftarrow> get_effects h1 (c_effects nc);
                         rv \<leftarrow> get_reverb h1 (c_reverb fc);
                         let h2 = put (c_reverb fc)
                                    (ReverbObj (rv\<lparr>reverb_wet := reverb_wet rv
                                       + (draw_val (rnd n) - 0.5) * i * 0.3\<rparr>)) h1;
                         dl \<leftarrow> get_delay h2 (c_delay fc);
                         let h3 = put (c_delay fc)
                                    (DelayObj (dl\<lparr>delay_wet := delay_wet dl
                                       + (draw_val (rnd (Suc n)) - 0.5) * i * 0.2\<rparr>)) h2;
                         Some (h3, newParams, Suc (Suc n)) }
               else Some (h1, newParams, n))
          | radical \<Rightarrow>
              do { (n1, h2) \<leftarrow>
                     (if ''scale'' \<notin> set locked
                      then do { let (sc1, m) = generateRadicalScale rnd n;
                                let (a, h') = alloc (StringArray sc1) h1;
                                h'' \<leftarrow> set_params newParams (\<lambda>c. c\<lparr>c_scale := a\<rparr>) h';
                                Some (m, h'') }
                      else Some (n, h1));
                   (n2, h3) \<leftarrow>
                     (if ''tempo'' \<notin> set locked
                      then do { h' \<leftarrow> set_params newParams
                                         (\<lambda>c. c\<lparr>c_tempo := 40 + draw_val (rnd n1) * 160\<rparr>) h2;
                                Some (Suc n1, h') }
                      else Some (n1, h2));
                   Some (h3, newParams, n2) } }"

subsection \<open>The fitness evaluator\<close>

text \<open>With an empty array both divisions of \<open>variance\<close> are \<^verbatim>\<open>0 / 0\<close>.\<close>

definition variance :: "real list \<Rightarrow> jsnum" where
  "variance nums =
     (if nums = [] then NaN
      else (let mean = foldl (\<lambda>a b. a + b) 0 nums / real (length nums)
            in Num (foldl (\<lambda>sum n. sum + (n - mean)\<^sup>2) 0 nums / real (length nums))))"

definition clamp01 :: "real \<Rightarrow> real" where
  "clamp01 score = max 0 (min 1 score)"

definition assessEmotionalMatch :: "MusicParameters \<Rightarrow> EmotionalVector \<Rightarrow> real" where
  "assessEmotionalMatch params m =
     (let tempoMatch = \<bar>(tempo params - 60) / 120 - energy m\<bar>;
          score1 = 0.5 + (1 - tempoMatch) * 0.2;
          spaceMatch = \<bar>reverb_wet (reverb (effects params)) - space m\<bar>;
          score2 = score1 + (1 - spaceMatch) * 0.2
      in clamp01 score2)"

text \<open>Arithmetic, \<^verbatim>\<open>Math.max\<close> and \<^verbatim>\<open>Math.min\<close> with a not-a-number operand give
  not-a-number.\<close>

definition assessCoherence :: "MusicParameters \<Rightarrow> jsnum" where
  "assessCoherence params =
     (let volumes = map volume (synths params) in
      case variance volumes of
        NaN \<Rightarrow> NaN
      | Num volumeVariance \<Rightarrow> Num (clamp01 (0.6 + max 0 (0.3 - volumeVariance) * 0.4)))"

definition assessInterest :: "MusicParameters \<Rightarrow> real" where
  "assessInterest params =
     (let score1 = 0.4 + min (real (length (patterns params)) / 4) 0.3;
          uniqueDurations = length (remdups (concat (map durations (patterns params))))
      in clamp01 (score1 + real uniqueDurations * 0.05))"

definition assessSurprise :: "MusicParameters \<Rightarrow> real" where
  "assessSurprise params =
     (let score1 = 0.3 + (if fst (timeSignature params) \<noteq> 4 then 0.2 else 0);
          score2 = score1 + (if length (scale params) \<noteq> 7 then 0.2 else 0)
      in clamp01 score2)"

definition assessTechnicalQuality :: "MusicParameters \<Rightarrow> real" where
  "assessTechnicalQuality params =
     (let hasGoodEnvelopes =
            list_all (\<lambda>s. attack (envelope s) < 2 \<and> release (envelope s) < 5) (synths params);
          score1 = 0.6 + (if hasGoodEnvelopes then 0.2 else 0);
          score2 = score1 + (if reverb_wet (reverb (effects params)) < 0.8
                                \<and> feedback (delay (effects params)) < 0.8 then 0.2 else 0)
      in clamp01 score2)"

definition evaluateFitness :: "MusicParameters \<Rightarrow> EmotionalVector \<Rightarrow> string \<Rightarrow> FitnessScores" where
  "evaluateFitness params m prompt_text =
     \<lparr>emotionalResonance = Num (assessEmotionalMatch params m),
      coherence = assessCoherence params,
      interest = Num (assessInterest params),
      surprise = Num (assessSurprise params),
      technicalQuality = Num (assessTechnicalQuality params)\<rparr>"

subsection \<open>The generation lifecycle: \<^verbatim>\<open>evolve\<close>\<close>

text \<open>
  What the lifecycle takes from outside the model: the readings of \<^verbatim>\<open>Date.now()\<close>
  (\<open>clock k\<close> is the \<open>k\<close>-th reading of a call), the text of an identifier for a
  clock reading and a random draw, and the rendering of parameters as program text
  (\<^verbatim>\<open>generateCode\<close>, which prints floating point numbers).
\<close>

record Env =
  clock :: "nat \<Rightarrow> nat"
  id_text :: "nat \<Rightarrow> real \<Rightarrow> string"
  generateCode :: "MusicParameters \<Rightarrow> string"

definition generateId :: "Env \<Rightarrow> (nat \<Rightarrow> draw) \<Rightarrow> nat \<Rightarrow> string \<times> nat" where
  "generateId env rnd n = (''gen_'' @ id_text env (clock env 0) (draw_val (rnd n)), Suc n)"

fun analysis_text :: "aspect \<Rightarrow> string" where
  "analysis_text EmotionalResonance = ''The emotional impact isn't quite landing as I'd hoped.''"
| "analysis_text Coherence = ''Some elements feel disconnected from each other.''"
| "analysis_text Interest = ''It needs more variety to hold attention.''"
| "analysis_text Surprise = ''It's a bit too predictable - needs unexpected moments.''"
| "analysis_text TechnicalQuality = ''The execution could be more polished.''"

definition analyzeParent :: "Generation \<Rightarrow> string" where
  "analyzeParent parent = analysis_text (findWeakestAspect (fitness parent))"

definition translateFeedbackToGoal :: "string \<Rightarrow> string" where
  "translateFeedbackToGoal fb =
     (let lower = toLowerCase fb in
      if str_includes lower ''more energy'' then ''increase the energy and momentum''
      else if str_includes lower ''darker'' then ''explore darker emotional territory''
      else if str_includes lower ''simpler'' then ''strip back to the essentials''
      else if str_includes lower ''more complex'' then ''add more layers and intrigue''
      else ''address the feedback thoughtfully'')"

definition articulateIntent :: "MutationStrategy \<Rightarrow> string option \<Rightarrow> string" where
  "articulateIntent st fb =
     (if truthy fb
      then ''Based on feedback: '' @ [CHR 0x22] @ the fb @ [CHR 0x22] @ '', I want to ''
             @ translateFeedbackToGoal (the fb) @ ''.''
      else ''I want to improve by '' @ description st @ ''.'')"

definition explainStrategy :: "MutationStrategy \<Rightarrow> string" where
  "explainStrategy st =
     (case strategy_type st of
        harmonic \<Rightarrow> ''I'll adjust the harmonic content - '' @ join (targets st) '' and ''
                      @ '' - to shift the emotional color.''
      | rhythmic \<Rightarrow> ''I'll modify the rhythmic elements to change the groove and energy flow.''
      | timbral \<Rightarrow> ''I'll reshape the sound design and timbres to alter the texture and mood.''
      | structural \<Rightarrow> ''I'll reorganize the structure to improve coherence and narrative arc.''
      | textural \<Rightarrow>
          ''I'll adjust the layering and spatial qualities for better depth and dimension.''
      | radical \<Rightarrow> ''I'm going to completely reimagine this - time for a bold experiment.'')"

definition anticipateOutcome :: "MutationStrategy \<Rightarrow> string" where
  "anticipateOutcome st =
     (if intensity st > 0.7
      then ''This is a bold move - it might be brilliant or might need refinement.''
      else if intensity st < 0.3
      then ''This is a subtle tweak. The change should be nuanced but meaningful.''
      else ''I'm curious to see how this shifts the overall feel.'')"

text \<open>\<open>None\<close>: the mutation stored \<^verbatim>\<open>undefined\<close> as a pattern layer, and
  \<^verbatim>\<open>generateCode\<close> throws a \<^verbatim>\<open>TypeError\<close> when it reads the notes of that layer.\<close>

definition evolve ::
  "Env \<Rightarrow> Generation \<Rightarrow> real \<Rightarrow> string option \<Rightarrow> (nat \<Rightarrow> draw) \<Rightarrow> nat
     \<Rightarrow> (Generation \<times> nat) option" where
  "evolve env parent temperature fb rnd n =
     (let mutationStrategy = chooseMutationStrategy parent temperature fb in
      case applyMutation (musicParams parent) mutationStrategy (lockedElements parent) rnd n of
        None \<Rightarrow> None
      | Some (newParams, n1) \<Rightarrow>
          (let code = generateCode env newParams;
               reasoning = \<lparr>analysis = analyzeParent parent,
                             intention = articulateIntent mutationStrategy fb,
                             strategy = explainStrategy mutationStrategy,
                             reflection = anticipateOutcome mutationStrategy\<rparr>;
               fit = evaluateFitness newParams (mood parent) (prompt parent);
               (new_id, n2) = generateId env rnd n1
           in Some (\<lparr>gen_id = new_id,
                      parentId = Some (gen_id parent),
                      generationNumber = generationNumber parent + 1,
                      timestamp = clock env 1,
                      musicCode = code,
                      musicParams = newParams,
                      creativeReasoning = reasoning,
                      fitness = fit,
                      prompt = prompt parent,
                      mood = mood parent,
                      mutations = mutations parent @ [type_name (strategy_type mutationStrategy)],
                      lockedElements = lockedElements parent,
                      branch = branch parent,
                      tags = []\<rparr>, n2)))"

subsection \<open>The session store (\<^verbatim>\<open>sessionStore.ts\<close>)\<close>

text \<open>The stores that \<^verbatim>\<open>evolveCurrentGeneration\<close> reads or writes.\<close>

record Store =
  session :: Session
  isGenerating :: bool

text \<open>
  The result is the value the promise resolves to, or the error it is rejected
  with, together with the stores and the draw counter after the call. The first
  check throws before any store is written; the \<^verbatim>\<open>finally\<close> block resets
  \<open>isGenerating\<close> on both exits of the \<^verbatim>\<open>try\<close> block.
\<close>

definition evolveCurrentGeneration ::
  "Env \<Rightarrow> Store \<Rightarrow> string option \<Rightarrow> (nat \<Rightarrow> draw) \<Rightarrow> nat
     \<Rightarrow> (error + Generation) \<times> Store \<times> nat" where
  "evolveCurrentGeneration env store fb rnd n =
     (let s = session store in
      case find (\<lambda>g. gen_id g = currentGeneration s) (generations s) of
        None \<Rightarrow> (Inl NoCurrentGeneration, store, n)
      | Some current \<Rightarrow>
          (let store1 = store\<lparr>isGenerating := True\<rparr> in
           case evolve env current (creativeTemperature (settings s)) fb rnd n of
             None \<Rightarrow> (Inl TypeError, store1\<lparr>isGenerating := False\<rparr>, n)
           | Some (newGen, n1) \<Rightarrow>
               (let s1 = session store1;
                    store2 = store1\<lparr>session :=
                               s1\<lparr>currentGeneration := gen_id newGen,
                                  generations := generations s1 @ [newGen],
                                  lastUpdateTime := clock env 2\<rparr>\<rparr>
                in (Inr newGen, store2\<lparr>isGenerating := False\<rparr>, n1))))"

subsection \<open>Predicates of the statements and sample values\<close>




definition calm :: EmotionalVector where
  "calm = \<lparr>energy = 0, tension = 0, warmth = 0, complexity = 0, darkness = 0, hope = 0,
            chaos = 0, space = 0\<rparr>"


text \<open>The random source whose draws are all 0.\<close>

definition zeros :: "nat \<Rightarrow> draw" where
  "zeros k = mk_draw 0"

text \<open>The bass voice and the effects that the synthesizer derives from \<open>calm\<close>, and
  parameters with two short layers.\<close>

definition sample_synth :: SynthSettings where
  "sample_synth =
     \<lparr>synth_type = Synth, oscillator = \<lparr>osc_type = ''triangle''\<rparr>,
      envelope = \<lparr>attack = 0.01, decay = 0.2, sustain = 0.6, release = 0.5\<rparr>,
      volume = - 10\<rparr>"

definition sample_effects :: EffectSettings where
  "sample_effects =
     \<lparr>reverb = \<lparr>roomSize = 0.3, dampening = 1000, reverb_wet = 0.2\<rparr>,
      delay = \<lparr>delayTime = ''8n'', feedback = 0.1, delay_wet = 0.1\<rparr>,
      filter_fx = \<lparr>frequency = 200, filter_type = ''bandpass'', rolloff = - 12\<rparr>\<rparr>"

definition sample_pattern :: PatternDefinition where
  "sample_pattern =
     \<lparr>pattern_notes = [''C2'', ''G2''], durations = [''4n'', ''4n''],
      velocities = [0.5, 0.5], timing = [0, 0]\<rparr>"

definition sample_params :: MusicParameters where
  "sample_params =
     \<lparr>tempo = 60, key = ''C'', scale = [''C'', ''D'', ''E'', ''F'', ''G'', ''A'', ''B''],
      timeSignature = (4, 4), effects = sample_effects, synths = [sample_synth],
      patterns = [sample_pattern, sample_pattern]\<rparr>"

definition sample_env :: Env where
  "sample_env = \<lparr>clock = (\<lambda>k. 1000 + k), id_text = (\<lambda>t r. ''1000_abc''),
                  generateCode = (\<lambda>p. ''// Generated music code'')\<rparr>"

definition sample_fitness :: FitnessScores where
  "sample_fitness = \<lparr>emotionalResonance = Num 0.9, coherence = Num 0.72, interest = Num 0.75,
                      surprise = Num 0.3, technicalQuality = Num 1\<rparr>"

definition sample_generation :: Generation where
  "sample_generation =
     \<lparr>gen_id = ''gen_0'', parentId = None, generationNumber = 0, timestamp = 1000,
      musicCode = ''// Generated music code'', musicParams = sample_params,
      creativeReasoning = \<lparr>analysis = ''a'', intention = ''i'', strategy = ''s'',
                            reflection = ''r''\<rparr>,
      fitness = sample_fitness, prompt = ''calm'', mood = calm, mutations = [],
      lockedElements = [], branch = ''main'', tags = []\<rparr>"

text \<open>The session of \<^verbatim>\<open>createInitialSession\<close>, created at time \<open>t\<close>: no generation yet,
  and an empty current-generation pointer.\<close>

definition createInitialSession :: "nat \<Rightarrow> string \<Rightarrow> Session" where
  "createInitialSession t sid =
     \<lparr>session_id = sid, startTime = t, lastUpdateTime = t, initialPrompt = [],
      currentGeneration = [], generations = [],
      settings = \<lparr>autonomyLevel = 0.5, generationsToRun = 5, creativeTemperature = 0.5,
                   allowBranching = True\<rparr>,
      memory = \<lparr>preferredMoods = [], successfulMutations = [], avoidedPatterns = [],
                 stylePreferences = []\<rparr>\<rparr>"

text \<open>Strategies as the selector builds them, and the six lockable field names.\<close>

definition timbral_half :: MutationStrategy where
  "timbral_half = \<lparr>strategy_type = timbral, description = ''moderate timbral mutation'',
                    intensity = 0.5, targets = [''synths'', ''effects'']\<rparr>"

definition simplify_065 :: MutationStrategy where
  "simplify_065 = \<lparr>strategy_type = structural, description = ''moderate structural mutation'',
                    intensity = 0.65, targets = [''patterns'', ''timeSignature'']\<rparr>"

definition textural_full :: MutationStrategy where
  "textural_full = \<lparr>strategy_type = textural, description = ''dramatic textural mutation'',
                     intensity = 1, targets = [''effects.reverb'', ''effects.delay'']\<rparr>"


text \<open>The sample parameters with both wet levels at 0, the lower end of their range.\<close>

definition dry_params :: MusicParameters where
  "dry_params =
     sample_params\<lparr>effects :=
       \<lparr>reverb = \<lparr>roomSize = 0.3, dampening = 1000, reverb_wet = 0\<rparr>,
        delay = \<lparr>delayTime = ''8n'', feedback = 0.1, delay_wet = 0\<rparr>,
        filter_fx = \<lparr>frequency = 200, filter_type = ''bandpass'', rolloff = - 12\<rparr>\<rparr>\<rparr>"

text \<open>A store whose current-generation pointer names no generation of the session.\<close>

definition stale_store :: Store where
  "stale_store =
     \<lparr>session = (createInitialSession 1000 ''session_1000'')
                  \<lparr>currentGeneration := ''gen_9'', generations := [sample_generation]\<rparr>,
      isGenerating = False\<rparr>"

definition timbral_06 :: MutationStrategy where
  "timbral_06 = \<lparr>strategy_type = timbral, description = ''moderate timbral mutation'',
                  intensity = 0.6, targets = [''synths'', ''effects'']\<rparr>"

subsection \<open>The layout of a stored object\<close>

text \<open>
  The predicates of this part are not taken from the source: they describe where
  \<open>store_params\<close> puts the objects of a value (\<open>params_at\<close>, with the addresses
  \<open>synths_addr\<close>, \<open>patterns_addr\<close> and \<open>params_addr\<close>), and which cells the reading of
  an object depends on (\<open>supp\<close>). They serve the proof that the applicator on the
  object store returns the value that \<open>applyMutation\<close> computes.
\<close>


definition same_on :: "addr \<Rightarrow> addr \<Rightarrow> heap \<Rightarrow> heap \<Rightarrow> bool" where
  "same_on lo hi h h' \<longleftrightarrow> (\<forall>a. lo \<le> a \<and> a < hi \<longrightarrow> cells h' a = cells h a)"

definition extends :: "heap \<Rightarrow> heap \<Rightarrow> bool" where
  "extends h h' \<longleftrightarrow> next_free h \<le> next_free h' \<and> same_on 0 (next_free h) h h'"

fun refs_from :: "addr \<Rightarrow> nat \<Rightarrow> nat \<Rightarrow> addr list" where
  "refs_from b s 0 = []"
| "refs_from b s (Suc k) = (b + s - 1) # refs_from (b + s) s k"

fun synths_at :: "heap \<Rightarrow> addr \<Rightarrow> SynthSettings list \<Rightarrow> bool" where
  "synths_at h b [] = True"
| "synths_at h b (v # vs) =
     (cells h b = Some (OscillatorObj (oscillator v))
    \<and> cells h (b + 1) = Some (EnvelopeObj (envelope v))
    \<and> cells h (b + 2) = Some (SynthObj \<lparr>c_synth_type = synth_type v, c_oscillator = b,
                                         c_envelope = b + 1, c_volume = volume v\<rparr>)
    \<and> synths_at h (b + 3) vs)"

fun patterns_at :: "heap \<Rightarrow> addr \<Rightarrow> PatternDefinition list \<Rightarrow> bool" where
  "patterns_at h b [] = True"
| "patterns_at h b (v # vs) =
     (cells h b = Some (StringArray (pattern_notes v))
    \<and> cells h (b + 1) = Some (StringArray (durations v))
    \<and> cells h (b + 2) = Some (NumberArray (velocities v))
    \<and> cells h (b + 3) = Some (NumberArray (timing v))
    \<and> cells h (b + 4) = Some (PatternObj \<lparr>c_notes = b, c_durations = b + 1,
                                           c_velocities = b + 2, c_timing = b + 3\<rparr>)
    \<and> patterns_at h (b + 5) vs)"

definition synths_addr :: "addr \<Rightarrow> MusicParameters \<Rightarrow> addr" where
  "synths_addr b p = b + 6 + 3 * length (synths p)"

definition patterns_addr :: "addr \<Rightarrow> MusicParameters \<Rightarrow> addr" where
  "patterns_addr b p = synths_addr b p + 1 + 5 * length (patterns p)"

definition params_addr :: "addr \<Rightarrow> MusicParameters \<Rightarrow> addr" where
  "params_addr b p = patterns_addr b p + 1"

definition params_cell :: "addr \<Rightarrow> MusicParameters \<Rightarrow> ParamsCell" where
  "params_cell b p =
     \<lparr>c_tempo = tempo p, c_key = key p, c_scale = b, c_timeSignature = b + 1,
      c_effects = b + 5, c_synths = synths_addr b p, c_patterns = patterns_addr b p\<rparr>"

definition params_at :: "heap \<Rightarrow> addr \<Rightarrow> MusicParameters \<Rightarrow> bool" where
  "params_at h b p =
     (cells h b = Some (StringArray (scale p))
      \<and> cells h (b + 1) = Some (SignatureArray (timeSignature p))
      \<and> cells h (b + 2) = Some (ReverbObj (reverb (effects p)))
      \<and> cells h (b + 3) = Some (DelayObj (delay (effects p)))
      \<and> cells h (b + 4) = Some (FilterObj (filter_fx (effects p)))
      \<and> cells h (b + 5) = Some (EffectsObj \<lparr>c_reverb = b + 2, c_delay = b + 3, c_filter = b + 4\<rparr>)
      \<and> synths_at h (b + 6) (synths p)
      \<and> cells h (synths_addr b p) = Some (RefArray (refs_from (b + 6) 3 (length (synths p))))
      \<and> patterns_at h (synths_addr b p + 1) (patterns p)
      \<and> cells h (patterns_addr b p)
          = Some (RefArray (refs_from (synths_addr b p + 1) 5 (length (patterns p))))
      \<and> cells h (params_addr b p) = Some (ParamsObj (params_cell b p)))"

definition agree :: "addr \<Rightarrow> addr \<Rightarrow> heap \<Rightarrow> heap \<Rightarrow> bool" where
  "agree lo np h h' \<longleftrightarrow> (\<forall>y. lo \<le> y \<and> y < next_free h \<and> y \<noteq> np \<longrightarrow> cells h' y = cells h y)"

definition supp ::
  "addr \<Rightarrow> addr \<Rightarrow> heap \<Rightarrow> (heap \<Rightarrow> addr \<Rightarrow> 'v option) \<Rightarrow> addr \<Rightarrow> 'v \<Rightarrow> bool" where
  "supp lo np h load a x \<longleftrightarrow> (\<forall>h'. agree lo np h h' \<longrightarrow> load h' a = Some x)"

definition supp_list ::
  "addr \<Rightarrow> addr \<Rightarrow> heap \<Rightarrow> (heap \<Rightarrow> addr \<Rightarrow> 'v option) \<Rightarrow> addr list \<Rightarrow> 'v list \<Rightarrow> bool" where
  "supp_list lo np h load rs xs \<longleftrightarrow> (\<forall>h'. agree lo np h h' \<longrightarrow> map (load h') rs = map Some xs)"

definition new_inv :: "addr \<Rightarrow> addr \<Rightarrow> heap \<Rightarrow> ParamsCell \<Rightarrow> MusicParameters \<Rightarrow> bool" where
  "new_inv lo np h c v \<longleftrightarrow>
     lo \<le> np \<and> np < next_free h \<and> cells h np = Some (ParamsObj c)
   \<and> c_tempo c = tempo v \<and> c_key c = key v
   \<and> supp lo np h get_strings (c_scale c) (scale v)
   \<and> supp lo np h get_signature (c_timeSignature c) (timeSignature v)
   \<and> supp lo np h load_effects (c_effects c) (effects v)
   \<and> supp lo np h load_synths (c_synths c) (synths v)
   \<and> supp lo np h load_patterns (c_patterns c) (patterns v)"

definition st_inv ::
  "addr \<Rightarrow> MusicParameters \<Rightarrow> addr \<Rightarrow> addr \<Rightarrow> heap \<Rightarrow> ParamsCell \<Rightarrow> MusicParameters \<Rightarrow> bool" where
  "st_inv b0 p0 lo np h c v \<longleftrightarrow>
     new_inv lo np h c v \<and> params_at h b0 p0 \<and> params_addr b0 p0 < np
   \<and> params_addr b0 p0 < next_free h"


section \<open>Properties\<close>

subsection \<open>Strings\<close>

lemma str_includes_sublist: "str_includes s t \<longleftrightarrow> sublist t s"
  by (induction s) (auto simp: sublist_Cons_right)

lemma lower_feedback_C7:
  "toLowerCase ''make it darker and heavier'' = ''make it darker and heavier''"
  by (simp add: toLowerCase_def lowerChar_def)

lemma str_includes_map:
  "str_includes s t \<Longrightarrow> str_includes (map f s) (map f t)"
  unfolding str_includes_sublist sublist_def by (metis map_append)

lemma includes_toLowerCase:
  "str_includes fb t \<Longrightarrow> toLowerCase t = t \<Longrightarrow> str_includes (toLowerCase fb) t"
  using str_includes_map[of fb t lowerChar] by (simp add: toLowerCase_def)

lemma lower_faster: "toLowerCase ''faster'' = ''faster''"
  by (simp add: toLowerCase_def lowerChar_def)

lemma lower_darker: "toLowerCase ''darker'' = ''darker''"
  by (simp add: toLowerCase_def lowerChar_def)

subsection \<open>The selector\<close>

text \<open>
  Claim C7. Whatever the parent and the creative temperature, the feedback text
  "make it darker and heavier" makes the selector choose the harmonic mutation: the
  feedback rule comes before the radical rule of a temperature above 0.8 and before
  the rule of the weakest fitness dimension.
\<close>

theorem C7_darker_selects_harmonic:
  "strategy_type (chooseMutationStrategy parent temperature
      (Some ''make it darker and heavier'')) = harmonic"
  by (simp add: chooseMutationStrategy_def truthy_def parseFeedback_def lower_feedback_C7)

text \<open>
  Claim C10. The phrase classes of a feedback text are tried in a fixed order: energy
  ("more energy", "faster"), then darkening ("darker", "sadder"), then simplification
  ("simpler", "less"), then experimental ("weird", "experimental"); the first class
  that matches the lower-cased text decides. In particular a feedback that contains
  both "faster" and "darker" selects the rhythmic mutation with intensity 0.7.
\<close>

theorem C10_feedback_priority:
  "(let l = toLowerCase fb;
        energy_class = (str_includes l ''more energy'' \<or> str_includes l ''faster'');
        dark_class = (str_includes l ''darker'' \<or> str_includes l ''sadder'');
        simple_class = (str_includes l ''simpler'' \<or> str_includes l ''less'');
        weird_class = (str_includes l ''weird'' \<or> str_includes l ''experimental'')
    in (energy_class \<longrightarrow>
          parseFeedback fb = Some \<lparr>suggestedMutation = rhythmic, hint_intensity = 0.7\<rparr>)
     \<and> (\<not> energy_class \<and> dark_class \<longrightarrow>
          parseFeedback fb = Some \<lparr>suggestedMutation = harmonic, hint_intensity = 0.6\<rparr>)
     \<and> (\<not> energy_class \<and> \<not> dark_class \<and> simple_class \<longrightarrow>
          parseFeedback fb = Some \<lparr>suggestedMutation = structural, hint_intensity = 0.5\<rparr>)
     \<and> (\<not> energy_class \<and> \<not> dark_class \<and> \<not> simple_class \<and> weird_class \<longrightarrow>
          parseFeedback fb = Some \<lparr>suggestedMutation = radical, hint_intensity = 0.9\<rparr>))
   \<and> (str_includes fb ''faster'' \<and> str_includes fb ''darker'' \<longrightarrow>
         strategy_type (chooseMutationStrategy parent temperature (Some fb)) = rhythmic
       \<and> intensity (chooseMutationStrategy parent temperature (Some fb)) = 0.7)"
proof -
  have "strategy_type (chooseMutationStrategy parent temperature (Some fb)) = rhythmic
       \<and> intensity (chooseMutationStrategy parent temperature (Some fb)) = 0.7"
    if a: "str_includes fb ''faster''"
  proof -
    from a have "str_includes (toLowerCase fb) ''faster''"
      by (rule includes_toLowerCase) (rule lower_faster)
    moreover from a have "fb \<noteq> []" by auto
    ultimately show ?thesis
      by (simp add: chooseMutationStrategy_def truthy_def parseFeedback_def Let_def)
  qed
  then show ?thesis
    by (simp add: parseFeedback_def Let_def)
qed

theorem C10_feedback_priority_witness:
  "parseFeedback ''Faster, but darker'' = Some \<lparr>suggestedMutation = rhythmic, hint_intensity = 0.7\<rparr>
 \<and> parseFeedback ''Sadder and simpler'' = Some \<lparr>suggestedMutation = harmonic, hint_intensity = 0.6\<rparr>
 \<and> parseFeedback ''less weird'' = Some \<lparr>suggestedMutation = structural, hint_intensity = 0.5\<rparr>
 \<and> parseFeedback ''experimental'' = Some \<lparr>suggestedMutation = radical, hint_intensity = 0.9\<rparr>
 \<and> strategy_type (chooseMutationStrategy sample_generation 0.9 (Some ''faster and darker''))
       = rhythmic
 \<and> intensity (chooseMutationStrategy sample_generation 0.9 (Some ''faster and darker'')) = 0.7"
proof -
  have l: "toLowerCase ''Faster, but darker'' = ''faster, but darker''"
      "toLowerCase ''Sadder and simpler'' = ''sadder and simpler''"
      "toLowerCase ''less weird'' = ''less weird''"
      "toLowerCase ''experimental'' = ''experimental''"
    by (simp_all add: toLowerCase_def lowerChar_def)
  have 1: "parseFeedback ''Faster, but darker''
             = Some \<lparr>suggestedMutation = rhythmic, hint_intensity = 0.7\<rparr>"
    using C10_feedback_priority[of "''Faster, but darker''"] by (simp add: Let_def l)
  have 2: "parseFeedback ''Sadder and simpler''
             = Some \<lparr>suggestedMutation = harmonic, hint_intensity = 0.6\<rparr>"
    using C10_feedback_priority[of "''Sadder and simpler''"] by (simp add: Let_def l)
  have 3: "parseFeedback ''less weird''
             = Some \<lparr>suggestedMutation = structural, hint_intensity = 0.5\<rparr>"
    using C10_feedback_priority[of "''less weird''"] by (simp add: Let_def l)
  have 4: "parseFeedback ''experimental''
             = Some \<lparr>suggestedMutation = radical, hint_intensity = 0.9\<rparr>"
    using C10_feedback_priority[of "''experimental''"] by (simp add: Let_def l)
  have 5: "strategy_type (chooseMutationStrategy sample_generation 0.9
               (Some ''faster and darker'')) = rhythmic
         \<and> intensity (chooseMutationStrategy sample_generation 0.9
               (Some ''faster and darker'')) = 0.7"
    using C10_feedback_priority[of "''faster and darker''" sample_generation "0.9"] by simp
  from 1 2 3 4 5 show ?thesis by simp
qed

subsection \<open>The parameter synthesizer\<close>



lemma random_index_less: "0 < n \<Longrightarrow> random_index n d < n"
proof -
  assume n: "0 < n"
  have d: "0 \<le> draw_val d" "draw_val d < 1" using draw_val[of d] by auto
  have "draw_val d * real n < real n" using d n by simp
  then have "\<lfloor>draw_val d * real n\<rfloor> < int n" by (simp add: floor_less_iff)
  moreover have "0 \<le> \<lfloor>draw_val d * real n\<rfloor>" using d by simp
  ultimately show ?thesis by (simp add: random_index_def nat_less_iff)
qed















subsection \<open>The fitness evaluator\<close>







subsection \<open>The mutation applicator: the returned value\<close>

lemma zeros_val: "draw_val (zeros k) = 0"
  by (simp add: zeros_def mk_draw.rep_eq)


lemma timbral_sample_unlocked:
  "applyMutation sample_params timbral_half [] zeros 0 =
     Some (sample_params
            \<lparr>synths := [sample_synth\<lparr>envelope :=
                          \<lparr>attack = - 0.115, decay = 0.2, sustain = 0.6, release = 0.25\<rparr>\<rparr>],
             effects := sample_effects
               \<lparr>reverb := \<lparr>roomSize = 0.175, dampening = 1000, reverb_wet = 0.2\<rparr>,
                delay := \<lparr>delayTime = ''8n'', feedback = 0.025, delay_wet = 0.1\<rparr>\<rparr>\<rparr>, 4)"
  by (simp add: applyMutation_def timbral_half_def sample_params_def sample_synth_def
      sample_effects_def mutateSynth_def mutateEffects_def zeros_val Let_def)


lemma textural_dry:
  "applyMutation dry_params textural_full [] zeros 0 =
     Some (dry_params\<lparr>effects :=
       \<lparr>reverb = \<lparr>roomSize = 0.3, dampening = 1000, reverb_wet = - 0.15\<rparr>,
        delay = \<lparr>delayTime = ''8n'', feedback = 0.1, delay_wet = - 0.1\<rparr>,
        filter_fx = \<lparr>frequency = 200, filter_type = ''bandpass'', rolloff = - 12\<rparr>\<rparr>\<rparr>, 2)"
  by (simp add: applyMutation_def textural_full_def dry_params_def zeros_val Let_def)

lemma structural_sample:
  "applyMutation sample_params simplify_065 [] zeros 0 =
     Some (sample_params\<lparr>patterns := [sample_pattern]\<rparr>, 0)"
  by (simp add: applyMutation_def simplify_065_def sample_params_def mutateLayers_def Let_def)

lemma mutateLayers_None:
  "mutateLayers orig ps i = None \<longleftrightarrow>
     \<not> (i > 0.6 \<and> length ps > 1) \<and> i > 0.7 \<and> length ps < 4 \<and> orig = []"
  by (auto simp: mutateLayers_def split: list.splits)

text \<open>The applicator fails to return parameters of the data model in one case only:
  a structural mutation of intensity above 0.7 on parameters without any layer.\<close>

lemma applyMutation_None:
  "applyMutation p st locked rnd n = None \<longleftrightarrow>
     strategy_type st = structural \<and> ''patterns'' \<notin> set locked \<and> intensity st > 0.7
     \<and> patterns p = []"
proof (cases "strategy_type st")
  case structural
  then show ?thesis
    using mutateLayers_None[of "patterns p" "patterns p" "intensity st"]
    by (auto simp: applyMutation_def Let_def split: option.splits)
qed (simp_all add: applyMutation_def Let_def split: prod.splits)









text \<open>
  Claim C8. A structural mutation of intensity 0.65, with the patterns unlocked, of
  parameters with exactly two layers returns parameters with exactly one layer: the
  last layer is removed and nothing is added. For every intensity and every number
  of layers a structural mutation performs at most one of its two actions: the
  returned layers are the input layers without the last one, or the input layers
  followed by a copy of the first one, or the input layers unchanged. (Where nothing
  is returned the input has no layer and the one action tried was the addition.)
\<close>

theorem C8_structural_layers:
  assumes "strategy_type st = structural" and "''patterns'' \<notin> set locked"
  shows "(intensity st = 0.65 \<and> length (patterns p) = 2 \<longrightarrow>
            (\<exists>out. applyMutation p st locked rnd n = Some (out, n)
                  \<and> patterns out = butlast (patterns p) \<and> length (patterns out) = 1))
       \<and> (case applyMutation p st locked rnd n of
            Some (out, n') \<Rightarrow>
              (patterns out = butlast (patterns p) \<and> length (patterns out) + 1 = length (patterns p))
            \<or> (patterns out = patterns p @ [hd (patterns p)]
                \<and> length (patterns out) = length (patterns p) + 1)
            \<or> patterns out = patterns p
          | None \<Rightarrow> patterns p = [] \<and> intensity st > 0.7)"
proof -
  have r: "applyMutation p st locked rnd n =
      (case mutateLayers (patterns p) (patterns p) (intensity st) of
         None \<Rightarrow> None | Some ps \<Rightarrow> Some (p\<lparr>patterns := ps\<rparr>, n))"
    using assms by (simp add: applyMutation_def Let_def)
  have 1: "\<exists>out. applyMutation p st locked rnd n = Some (out, n)
                  \<and> patterns out = butlast (patterns p) \<and> length (patterns out) = 1"
    if "intensity st = 0.65" "length (patterns p) = 2"
    using that by (simp add: r mutateLayers_def)
  have 2: "case applyMutation p st locked rnd n of
            Some (out, n') \<Rightarrow>
              (patterns out = butlast (patterns p) \<and> length (patterns out) + 1 = length (patterns p))
            \<or> (patterns out = patterns p @ [hd (patterns p)]
                \<and> length (patterns out) = length (patterns p) + 1)
            \<or> patterns out = patterns p
          | None \<Rightarrow> patterns p = [] \<and> intensity st > 0.7"
    by (cases "patterns p") (auto simp: r mutateLayers_def)
  from 1 2 show ?thesis by blast
qed

theorem C8_structural_layers_witness:
  "strategy_type simplify_065 = structural \<and> ''patterns'' \<notin> set []
 \<and> intensity simplify_065 = 0.65 \<and> length (patterns sample_params) = 2
 \<and> (\<exists>out. applyMutation sample_params simplify_065 [] zeros 0 = Some (out, 0)
          \<and> patterns out = butlast (patterns sample_params) \<and> length (patterns out) = 1)"
proof -
  have a: "strategy_type simplify_065 = structural" by (simp add: simplify_065_def)
  have b: "''patterns'' \<notin> set []" by simp
  have c: "intensity simplify_065 = 0.65" by (simp add: simplify_065_def)
  have d: "length (patterns sample_params) = 2" by (simp add: sample_params_def)
  from C8_structural_layers[OF a b, of sample_params zeros 0] c d
  have "\<exists>out. applyMutation sample_params simplify_065 [] zeros 0 = Some (out, 0)
          \<and> patterns out = butlast (patterns sample_params) \<and> length (patterns out) = 1"
    by blast
  with a b c d show ?thesis by blast
qed

text \<open>
  Claim C3 fails on the code. The tempo is clamped, but the wet levels of a textural
  mutation and the envelope times of a timbral mutation are not: the bass voice that
  the synthesizer derives from the calm vector (attack 0.01) gets the attack -0.115
  from a timbral mutation of intensity 0.5 whose draws are 0, and wet levels at 0 get
  the values -0.15 and -0.1 from a textural mutation of intensity 1.
\<close>

theorem C3_unclamped_envelope_and_wet:
  "(\<exists>out n'. applyMutation sample_params timbral_half [] zeros 0 = Some (out, n')
            \<and> map (\<lambda>s. attack (envelope s)) (synths sample_params) = [0.01]
            \<and> map (\<lambda>s. attack (envelope s)) (synths out) = [- 0.115])
 \<and> (\<exists>out n'. applyMutation dry_params textural_full [] zeros 0 = Some (out, n')
            \<and> reverb_wet (reverb (effects dry_params)) = 0
            \<and> delay_wet (delay (effects dry_params)) = 0
            \<and> reverb_wet (reverb (effects out)) = - 0.15
            \<and> delay_wet (delay (effects out)) = - 0.1)"
  by (simp add: timbral_sample_unlocked textural_dry)
     (simp add: sample_params_def sample_synth_def dry_params_def)

lemma mutateTempo_clamped:
  "40 \<le> fst (mutateTempo t i rnd n) \<and> fst (mutateTempo t i rnd n) \<le> 200"
  by (simp add: mutateTempo_def Let_def)

subsection \<open>The generation lifecycle\<close>

text \<open>The selector never asks for a structural mutation of an intensity above 0.7.\<close>

lemma chooseMutationStrategy_structural_intensity:
  assumes "strategy_type (chooseMutationStrategy parent temperature fb) = structural"
  shows "intensity (chooseMutationStrategy parent temperature fb) \<le> 0.7"
proof (cases "if truthy fb then parseFeedback (the fb) else None")
  case None
  with assms have "\<not> temperature > 0.8"
    by (auto simp: chooseMutationStrategy_def Let_def split: if_splits)
  with None show ?thesis
    by (simp add: chooseMutationStrategy_def Let_def)
next
  case (Some h)
  with assms have t: "suggestedMutation h = structural"
    by (simp add: chooseMutationStrategy_def Let_def)
  from Some have "parseFeedback (the fb) = Some h" by (simp split: if_splits)
  with t have "hint_intensity h = 0.5"
    by (auto simp: parseFeedback_def Let_def split: if_splits)
  with Some show ?thesis
    by (simp add: chooseMutationStrategy_def Let_def)
qed

text \<open>
  Claim C5. For every parent generation, creative temperature and optional feedback,
  \<open>evolve\<close> returns a generation whose number is the parent's plus one, whose parent
  is the parent's id, whose mutation history is the parent's followed by the type of
  the chosen strategy, and whose locked elements and branch are the parent's.
\<close>

theorem C5_lineage:
  "\<exists>g n'. evolve env parent temperature fb rnd n = Some (g, n')
         \<and> generationNumber g = generationNumber parent + 1
         \<and> parentId g = Some (gen_id parent)
         \<and> mutations g = mutations parent
              @ [type_name (strategy_type (chooseMutationStrategy parent temperature fb))]
         \<and> lockedElements g = lockedElements parent
         \<and> branch g = branch parent"
proof -
  let ?st = "chooseMutationStrategy parent temperature fb"
  have "applyMutation (musicParams parent) ?st (lockedElements parent) rnd n \<noteq> None"
    using chooseMutationStrategy_structural_intensity[of parent temperature fb]
    by (auto simp: applyMutation_None)
  then obtain newParams n1 where
    a: "applyMutation (musicParams parent) ?st (lockedElements parent) rnd n = Some (newParams, n1)"
    by (cases "applyMutation (musicParams parent) ?st (lockedElements parent) rnd n") auto
  show ?thesis
    by (simp add: evolve_def a Let_def generateId_def)
qed

subsection \<open>The session store\<close>

text \<open>
  Claim C9. When the current-generation pointer of the session matches the id of no
  generation of the session, \<open>evolveCurrentGeneration\<close> is rejected with the error "no
  current generation" and leaves the stores as they were: the list of generations
  and the pointer are unchanged, no generation is produced, and no random number is
  drawn.
\<close>

theorem C9_no_current_generation:
  assumes "\<forall>g \<in> set (generations (session store)).
             gen_id g \<noteq> currentGeneration (session store)"
  shows "evolveCurrentGeneration env store fb rnd n = (Inl NoCurrentGeneration, store, n)"
proof -
  have "find (\<lambda>g. gen_id g = currentGeneration (session store)) (generations (session store))
          = None"
    using assms by (simp add: find_None_iff)
  then show ?thesis by (simp add: evolveCurrentGeneration_def Let_def)
qed

theorem C9_no_current_generation_witness:
  "map gen_id (generations (session stale_store)) = [''gen_0'']
 \<and> currentGeneration (session stale_store) = ''gen_9''
 \<and> evolveCurrentGeneration sample_env stale_store (Some ''more energy'') zeros 0
      = (Inl NoCurrentGeneration, stale_store, 0)"
proof -
  have a: "map gen_id (generations (session stale_store)) = [''gen_0'']"
    by (simp add: stale_store_def sample_generation_def)
  have b: "currentGeneration (session stale_store) = ''gen_9''"
    by (simp add: stale_store_def)
  have "\<forall>g \<in> set (generations (session stale_store)).
             gen_id g \<noteq> currentGeneration (session stale_store)"
    by (simp add: stale_store_def sample_generation_def)
  from C9_no_current_generation[OF this] a b show ?thesis by simp
qed

subsection \<open>The mutation applicator: the effect on its argument\<close>

lemmas store_simps = store_params_def store_effects_def store_synth_def store_pattern_def
  alloc_def put_def empty_heap_def Let_def

lemmas load_simps = load_params_def load_effects_def load_synths_def load_patterns_def
  load_synth_def load_pattern_def get_params_def get_strings_def get_numbers_def
  get_signature_def get_refs_def get_effects_def get_reverb_def get_delay_def get_filter_def
  get_synth_def get_oscillator_def get_envelope_def get_pattern_def

lemma pick_first: "pick (x # xs) (zeros k) = x"
  by (simp add: pick_def random_index_def zeros_val)

text \<open>
  Claim C2 fails on the code. The sample parameters are stored as an object graph; a
  timbral mutation of intensity 0.6 with no locked field, whose draws are 0, is
  applied to it. Before the call the graph holds the sample parameters. After the
  call the same object holds other parameters: the oscillator type of its synth is
  sine instead of triangle, the attack is -0.14 instead of 0.01 and the release 0.2
  instead of 0.5. The returned object holds the value that \<open>applyMutation\<close>
  computes.
\<close>

theorem C2_timbral_mutation_writes_to_input:
  "(let (params, h) = store_params sample_params empty_heap in
     load_params h params = Some sample_params \<and>
     (\<exists>h' out n'. applyMutation_store h params timbral_06 [] zeros 0 = Some (h', out, n')
        \<and> load_params h' params =
            Some (sample_params\<lparr>synths :=
                   [sample_synth\<lparr>oscillator := \<lparr>osc_type = ''sine''\<rparr>,
                      envelope := \<lparr>attack = - 0.14, decay = 0.2, sustain = 0.6, release = 0.2\<rparr>\<rparr>]\<rparr>)
        \<and> load_params h' params \<noteq> load_params h params
        \<and> load_params h' out =
            Some (fst (the (applyMutation sample_params timbral_06 [] zeros 0)))))"
  by (simp add: applyMutation_store_def applyMutation_def store_simps load_simps
      sample_params_def sample_synth_def sample_pattern_def sample_effects_def timbral_06_def
      mutateSynth_store_def mutateSynth_def mutateEffects_def set_params_def zeros_val
      pick_first)


subsection \<open>The object store and the value-level applicator\<close>

text \<open>
  The object that \<open>store_params\<close> builds is laid out as \<open>params_at\<close> says, and reads
  back as the value it was built from. A write to the new object leaves every
  object below it as it was.
\<close>


lemma same_on_sub:
  "same_on lo hi h h' \<Longrightarrow> lo \<le> lo' \<Longrightarrow> hi' \<le> hi \<Longrightarrow> same_on lo' hi' h h'"
  by (auto simp: same_on_def)

lemma same_on_trans: "same_on lo hi h1 h2 \<Longrightarrow> same_on lo hi h2 h3 \<Longrightarrow> same_on lo hi h1 h3"
  by (auto simp: same_on_def)

lemma same_on_refl: "same_on lo hi h h"
  by (simp add: same_on_def)

lemma extends_refl: "extends h h"
  by (simp add: extends_def same_on_refl)

lemma extends_trans: "extends h1 h2 \<Longrightarrow> extends h2 h3 \<Longrightarrow> extends h1 h3"
  by (auto simp: extends_def same_on_def)

lemma alloc_extends: "alloc ob h = (a, h') \<Longrightarrow> extends h h'"
  by (auto simp: alloc_def extends_def same_on_def)

lemma synths_at_same:
  "synths_at h b vs \<Longrightarrow> same_on b (b + 3 * length vs) h h' \<Longrightarrow> synths_at h' b vs"
proof (induction vs arbitrary: b)
  case Nil
  then show ?case by simp
next
  case (Cons v vs)
  from Cons.prems(2) have "same_on (b + 3) (b + 3 + 3 * length vs) h h'"
    by (auto simp: same_on_def)
  with Cons.IH[of "b + 3"] Cons.prems(1) have "synths_at h' (b + 3) vs" by simp
  moreover from Cons.prems(2) have "cells h' b = cells h b" "cells h' (b + 1) = cells h (b + 1)"
      "cells h' (b + 2) = cells h (b + 2)"
    by (auto simp: same_on_def)
  ultimately show ?case using Cons.prems(1) by simp
qed

lemma patterns_at_same:
  "patterns_at h b vs \<Longrightarrow> same_on b (b + 5 * length vs) h h' \<Longrightarrow> patterns_at h' b vs"
proof (induction vs arbitrary: b)
  case Nil
  then show ?case by simp
next
  case (Cons v vs)
  from Cons.prems(2) have "same_on (b + 5) (b + 5 + 5 * length vs) h h'"
    by (auto simp: same_on_def)
  with Cons.IH[of "b + 5"] Cons.prems(1) have "patterns_at h' (b + 5) vs" by simp
  moreover from Cons.prems(2) have "cells h' b = cells h b" "cells h' (b + 1) = cells h (b + 1)"
      "cells h' (b + 2) = cells h (b + 2)" "cells h' (b + 3) = cells h (b + 3)"
      "cells h' (b + 4) = cells h (b + 4)"
    by (auto simp: same_on_def)
  ultimately show ?case using Cons.prems(1) by simp
qed

lemma store_synths_layout:
  "map_state store_synth vs h = (rs, h1) \<Longrightarrow>
     rs = refs_from (next_free h) 3 (length vs) \<and> next_free h1 = next_free h + 3 * length vs
   \<and> extends h h1 \<and> synths_at h1 (next_free h) vs"
proof (induction vs arbitrary: h rs h1)
  case Nil
  then show ?case by (simp add: extends_refl)
next
  case (Cons v vs)
  obtain a h2 where a: "store_synth v h = (a, h2)" by (cases "store_synth v h")
  obtain rs' h3 where r: "map_state store_synth vs h2 = (rs', h3)"
    by (cases "map_state store_synth vs h2")
  from Cons.prems a r have eq: "rs = a # rs'" "h1 = h3" by (simp_all add: Let_def)
  from a have a2: "a = next_free h + 2" "next_free h2 = next_free h + 3" "extends h h2"
    "synths_at h2 (next_free h) [v]"
    by (auto simp: store_synth_def alloc_def Let_def extends_def same_on_def)
  from Cons.IH[OF r] have ih: "rs' = refs_from (next_free h2) 3 (length vs)"
    "next_free h3 = next_free h2 + 3 * length vs" "extends h2 h3" "synths_at h3 (next_free h2) vs"
    by simp_all
  have "same_on (next_free h) (next_free h + 3 * length [v]) h2 h3"
    using ih(3) a2(2) by (auto simp: extends_def same_on_def)
  from synths_at_same[OF a2(4) this] have "synths_at h3 (next_free h) [v]" .
  with ih a2 show ?case unfolding eq
    by (simp add: extends_trans[OF a2(3) ih(3)])
qed

lemma store_patterns_layout:
  "map_state store_pattern vs h = (rs, h1) \<Longrightarrow>
     rs = refs_from (next_free h) 5 (length vs) \<and> next_free h1 = next_free h + 5 * length vs
   \<and> extends h h1 \<and> patterns_at h1 (next_free h) vs"
proof (induction vs arbitrary: h rs h1)
  case Nil
  then show ?case by (simp add: extends_refl)
next
  case (Cons v vs)
  obtain a h2 where a: "store_pattern v h = (a, h2)" by (cases "store_pattern v h")
  obtain rs' h3 where r: "map_state store_pattern vs h2 = (rs', h3)"
    by (cases "map_state store_pattern vs h2")
  from Cons.prems a r have eq: "rs = a # rs'" "h1 = h3" by (simp_all add: Let_def)
  from a have a2: "a = next_free h + 4" "next_free h2 = next_free h + 5" "extends h h2"
    "patterns_at h2 (next_free h) [v]"
    by (auto simp: store_pattern_def alloc_def Let_def extends_def same_on_def)
  from Cons.IH[OF r] have ih: "rs' = refs_from (next_free h2) 5 (length vs)"
    "next_free h3 = next_free h2 + 5 * length vs" "extends h2 h3" "patterns_at h3 (next_free h2) vs"
    by simp_all
  have "same_on (next_free h) (next_free h + 5 * length [v]) h2 h3"
    using ih(3) a2(2) by (auto simp: extends_def same_on_def)
  from patterns_at_same[OF a2(4) this] have "patterns_at h3 (next_free h) [v]" .
  with ih a2 show ?case unfolding eq
    by (simp add: extends_trans[OF a2(3) ih(3)])
qed

lemma extends_cells: "extends h h' \<Longrightarrow> a < next_free h \<Longrightarrow> cells h' a = cells h a"
  by (simp add: extends_def same_on_def)

lemma extends_same_on: "extends h h' \<Longrightarrow> hi \<le> next_free h \<Longrightarrow> same_on lo hi h h'"
  by (simp add: extends_def same_on_def)

lemma extends_next: "extends h h' \<Longrightarrow> next_free h \<le> next_free h'"
  by (simp add: extends_def)

lemma store_params_layout:
  assumes "store_params p h = (a, h1)"
  shows "a = params_addr (next_free h) p \<and> next_free h1 = Suc a \<and> extends h h1
       \<and> params_at h1 (next_free h) p"
proof -
  define b where "b = next_free h"
  obtain sc ha where 1: "alloc (StringArray (scale p)) h = (sc, ha)" by (cases "alloc (StringArray (scale p)) h")
  obtain ts hb where 2: "alloc (SignatureArray (timeSignature p)) ha = (ts, hb)"
    by (cases "alloc (SignatureArray (timeSignature p)) ha")
  obtain fx h3 where 3: "store_effects (effects p) hb = (fx, h3)" by (cases "store_effects (effects p) hb")
  obtain srefs h4 where 4: "map_state store_synth (synths p) h3 = (srefs, h4)"
    by (cases "map_state store_synth (synths p) h3")
  obtain sy h5 where 5: "alloc (RefArray srefs) h4 = (sy, h5)" by (cases "alloc (RefArray srefs) h4")
  obtain prefs h6 where 6: "map_state store_pattern (patterns p) h5 = (prefs, h6)"
    by (cases "map_state store_pattern (patterns p) h5")
  obtain ps h7 where 7: "alloc (RefArray prefs) h6 = (ps, h7)" by (cases "alloc (RefArray prefs) h6")
  have 8: "alloc (ParamsObj \<lparr>c_tempo = tempo p, c_key = key p, c_scale = sc,
                           c_timeSignature = ts, c_effects = fx, c_synths = sy,
                           c_patterns = ps\<rparr>) h7 = (a, h1)"
    using assms by (simp add: store_params_def 1 2 3 4 5 6 7 Let_def)
  have f3: "sc = b" "ts = b + 1" "fx = b + 5" "next_free h3 = b + 6" "extends h h3"
      "cells h3 b = Some (StringArray (scale p))"
      "cells h3 (b + 1) = Some (SignatureArray (timeSignature p))"
      "cells h3 (b + 2) = Some (ReverbObj (reverb (effects p)))"
      "cells h3 (b + 3) = Some (DelayObj (delay (effects p)))"
      "cells h3 (b + 4) = Some (FilterObj (filter_fx (effects p)))"
      "cells h3 (b + 5) = Some (EffectsObj \<lparr>c_reverb = b + 2, c_delay = b + 3, c_filter = b + 4\<rparr>)"
    using 1 2 3 by (auto simp: b_def store_effects_def alloc_def Let_def extends_def same_on_def)
  from store_synths_layout[OF 4] have f4: "srefs = refs_from (b + 6) 3 (length (synths p))"
      "next_free h4 = b + 6 + 3 * length (synths p)" "extends h3 h4" "synths_at h4 (b + 6) (synths p)"
    by (simp_all add: f3)
  from 5 have f5: "sy = next_free h4" "next_free h5 = Suc (next_free h4)" "extends h4 h5"
      "cells h5 sy = Some (RefArray srefs)"
    by (auto simp: alloc_def extends_def same_on_def)
  from store_patterns_layout[OF 6] have f6: "prefs = refs_from (sy + 1) 5 (length (patterns p))"
      "next_free h6 = sy + 1 + 5 * length (patterns p)" "extends h5 h6"
      "patterns_at h6 (sy + 1) (patterns p)"
    by (simp_all add: f5)
  from 7 8 have f7: "ps = next_free h6" "a = Suc ps" "next_free h1 = Suc a" "extends h6 h1"
      "cells h1 ps = Some (RefArray prefs)"
      "cells h1 a = Some (ParamsObj \<lparr>c_tempo = tempo p, c_key = key p, c_scale = sc,
                           c_timeSignature = ts, c_effects = fx, c_synths = sy,
                           c_patterns = ps\<rparr>)"
    by (auto simp: alloc_def extends_def same_on_def)
  have e31: "extends h3 h1"
    using extends_trans[OF f4(3) extends_trans[OF f5(3) extends_trans[OF f6(3) f7(4)]]] .
  have e41: "extends h4 h1" using extends_trans[OF f5(3) extends_trans[OF f6(3) f7(4)]] .
  have e51: "extends h5 h1" using extends_trans[OF f6(3) f7(4)] .
  have c3: "cells h1 x = cells h3 x" if "x < b + 6" for x
    using extends_cells[OF e31] that f3(4) by simp
  have s1: "synths_at h1 (b + 6) (synths p)"
    by (rule synths_at_same[OF f4(4)]) (rule extends_same_on[OF e41], simp add: f4(2))
  have p1: "patterns_at h1 (sy + 1) (patterns p)"
    by (rule patterns_at_same[OF f6(4)]) (rule extends_same_on[OF f7(4)], simp add: f6(2))
  have sy1: "cells h1 sy = Some (RefArray srefs)"
    using extends_cells[OF e51, of sy] f5 by simp
  have ad: "sy = synths_addr b p" "ps = patterns_addr b p" "a = params_addr b p"
    using f7 f6 f5 f4 by (simp_all add: params_addr_def patterns_addr_def synths_addr_def)
  have "params_at h1 b p"
    unfolding params_at_def params_cell_def ad[symmetric]
    using c3[of b] c3[of "b + 1"] c3[of "b + 2"] c3[of "b + 3"] c3[of "b + 4"] c3[of "b + 5"]
      f3 s1 p1 sy1 f4(1,2) f5(1) f6(1,2) f7
    by simp
  moreover note ad(3)
  moreover have "extends h h1" using extends_trans[OF f3(5) e31] .
  ultimately show ?thesis using f7(3) by (simp add: b_def)
qed

lemma those_map_Some: "those (map Some xs) = Some xs"
  by (induction xs) simp_all

lemma synths_at_load:
  "synths_at h b vs \<Longrightarrow> map (load_synth h) (refs_from b 3 (length vs)) = map Some vs"
  by (induction vs arbitrary: b)
     (simp_all add: load_synth_def get_synth_def get_oscillator_def get_envelope_def)

lemma patterns_at_load:
  "patterns_at h b vs \<Longrightarrow> map (load_pattern h) (refs_from b 5 (length vs)) = map Some vs"
  by (induction vs arbitrary: b)
     (simp_all add: load_pattern_def get_pattern_def get_strings_def get_numbers_def add.commute)

lemma load_params_parts:
  assumes "cells h a = Some (ParamsObj c)"
    and "get_strings h (c_scale c) = Some sc"
    and "get_signature h (c_timeSignature c) = Some ts"
    and "load_effects h (c_effects c) = Some fx"
    and "load_synths h (c_synths c) = Some sy"
    and "load_patterns h (c_patterns c) = Some ps"
  shows "load_params h a = Some \<lparr>tempo = c_tempo c, key = c_key c, scale = sc,
           timeSignature = ts, effects = fx, synths = sy, patterns = ps\<rparr>"
  using assms by (simp add: load_params_def get_params_def)

lemma agree_refl: "agree lo np h h"
  by (simp add: agree_def)

lemma agree_same_on:
  "agree lo np h h' \<Longrightarrow> lo \<le> l \<Longrightarrow> hi \<le> next_free h \<Longrightarrow> np < l \<or> hi \<le> np \<Longrightarrow> same_on l hi h h'"
  by (auto simp: agree_def same_on_def)

lemma agree_trans_mono:
  "agree lo np h h2 \<Longrightarrow> agree lo2 np h2 h3 \<Longrightarrow> next_free h \<le> next_free h2 \<Longrightarrow> lo2 \<le> lo
     \<Longrightarrow> agree lo np h h3"
  by (auto simp: agree_def)

lemma supp_mono:
  "supp lo np h load a x \<Longrightarrow> agree lo np h h2 \<Longrightarrow> next_free h \<le> next_free h2 \<Longrightarrow> lo2 \<le> lo
     \<Longrightarrow> supp lo2 np h2 load a x"
  unfolding supp_def using agree_trans_mono by blast

lemma supp_list_mono:
  "supp_list lo np h load rs xs \<Longrightarrow> agree lo np h h2 \<Longrightarrow> next_free h \<le> next_free h2
     \<Longrightarrow> lo2 \<le> lo \<Longrightarrow> supp_list lo2 np h2 load rs xs"
  unfolding supp_list_def using agree_trans_mono by blast

lemma new_inv_mono:
  assumes "new_inv lo np h c v" "agree lo np h h2" "cells h2 np = cells h np"
    "next_free h \<le> next_free h2" "lo2 \<le> lo"
  shows "new_inv lo2 np h2 c v"
  using assms(1,3,4,5) unfolding new_inv_def
  by (auto intro: supp_mono[OF _ assms(2) assms(4) assms(5)])

lemma new_inv_load:
  assumes "new_inv lo np h c v"
  shows "load_params h np = Some v"
proof -
  from assms have "load_params h np = Some \<lparr>tempo = c_tempo c, key = c_key c, scale = scale v,
           timeSignature = timeSignature v, effects = effects v, synths = synths v,
           patterns = patterns v\<rparr>"
    unfolding new_inv_def supp_def
    by (intro load_params_parts) (auto simp: agree_refl)
  also have "\<dots> = Some v" using assms by (simp add: new_inv_def)
  finally show ?thesis .
qed

lemma agree_put: "agree lo np h (put np ob h)"
  by (simp add: agree_def put_def)

lemma new_inv_put:
  assumes "new_inv lo np h c v"
    and "c_tempo c' = tempo v'" "c_key c' = key v'"
    and "supp lo np h get_strings (c_scale c') (scale v')"
    and "supp lo np h get_signature (c_timeSignature c') (timeSignature v')"
    and "supp lo np h load_effects (c_effects c') (effects v')"
    and "supp lo np h load_synths (c_synths c') (synths v')"
    and "supp lo np h load_patterns (c_patterns c') (patterns v')"
  shows "new_inv lo np (put np (ParamsObj c') h) c' v'"
proof -
  let ?h = "put np (ParamsObj c') h"
  have n: "next_free ?h = next_free h" by (simp add: put_def)
  have a: "agree lo np h ?h" by (rule agree_put)
  have s: "supp lo np ?h load x y" if "supp lo np h load x y" for load :: "heap \<Rightarrow> addr \<Rightarrow> 'v option" and x y
    using supp_mono[OF that a] n by simp
  show ?thesis
    unfolding new_inv_def
    using assms(1) s[OF assms(4)] s[OF assms(5)] s[OF assms(6)] s[OF assms(7)] s[OF assms(8)]
      assms(2,3) n
    by (simp add: new_inv_def put_def)
qed

lemma set_params_cell:
  "cells h np = Some (ParamsObj c) \<Longrightarrow> set_params np f h = Some (put np (ParamsObj (f c)) h)"
  by (simp add: set_params_def get_params_def)

lemma addr_order:
  "b + 6 \<le> synths_addr b p" "synths_addr b p < patterns_addr b p"
  "patterns_addr b p < params_addr b p" "params_addr b p = Suc (patterns_addr b p)"
  by (simp_all add: synths_addr_def patterns_addr_def params_addr_def)

lemma comp_scale:
  "params_at h b p \<Longrightarrow> cells h' b = cells h b \<Longrightarrow> get_strings h' b = Some (scale p)"
  by (simp add: params_at_def get_strings_def)

lemma comp_signature:
  "params_at h b p \<Longrightarrow> cells h' (b + 1) = cells h (b + 1)
     \<Longrightarrow> get_signature h' (b + 1) = Some (timeSignature p)"
  by (simp add: params_at_def get_signature_def)

lemma comp_effects:
  assumes "params_at h b p" "same_on (b + 2) (b + 6) h h'"
  shows "load_effects h' (b + 5) = Some (effects p)"
proof -
  from assms(2) have "cells h' (b + 2) = cells h (b + 2)" "cells h' (b + 3) = cells h (b + 3)"
    "cells h' (b + 4) = cells h (b + 4)" "cells h' (b + 5) = cells h (b + 5)"
    by (simp_all add: same_on_def)
  with assms(1) show ?thesis
    by (simp add: params_at_def load_effects_def get_effects_def get_reverb_def get_delay_def
        get_filter_def)
qed

lemma comp_synths:
  assumes "params_at h b p" "same_on (b + 6) (Suc (synths_addr b p)) h h'"
  shows "load_synths h' (synths_addr b p) = Some (synths p)"
proof -
  from assms(2) have c: "cells h' (synths_addr b p) = cells h (synths_addr b p)"
    using addr_order(1)[of b p] by (simp add: same_on_def)
  have "same_on (b + 6) (b + 6 + 3 * length (synths p)) h h'"
    using assms(2) by (simp add: same_on_def synths_addr_def)
  moreover from assms(1) have "synths_at h (b + 6) (synths p)" by (simp add: params_at_def)
  ultimately have "synths_at h' (b + 6) (synths p)" by (rule synths_at_same[rotated])
  from synths_at_load[OF this] c assms(1) show ?thesis
    by (simp add: load_synths_def get_refs_def params_at_def those_map_Some)
qed

lemma comp_pattern_refs:
  assumes "params_at h b p" "same_on (Suc (synths_addr b p)) (patterns_addr b p) h h'"
  shows "map (load_pattern h') (refs_from (synths_addr b p + 1) 5 (length (patterns p)))
           = map Some (patterns p)"
proof -
  have "same_on (synths_addr b p + 1) (synths_addr b p + 1 + 5 * length (patterns p)) h h'"
    using assms(2) by (simp add: same_on_def patterns_addr_def)
  moreover from assms(1) have "patterns_at h (synths_addr b p + 1) (patterns p)"
    by (simp add: params_at_def)
  ultimately have "patterns_at h' (synths_addr b p + 1) (patterns p)"
    by (rule patterns_at_same[rotated])
  from patterns_at_load[OF this] show ?thesis .
qed

lemma comp_patterns:
  assumes "params_at h b p" "same_on (Suc (synths_addr b p)) (Suc (patterns_addr b p)) h h'"
  shows "load_patterns h' (patterns_addr b p) = Some (patterns p)"
proof -
  from assms(2) have c: "cells h' (patterns_addr b p) = cells h (patterns_addr b p)"
    using addr_order(2)[of b p] by (simp add: same_on_def)
  have "same_on (Suc (synths_addr b p)) (patterns_addr b p) h h'"
    using assms(2) by (simp add: same_on_def)
  from comp_pattern_refs[OF assms(1) this] c assms(1) show ?thesis
    by (simp add: load_patterns_def get_refs_def params_at_def those_map_Some)
qed

lemma params_at_load:
  assumes "params_at h b p"
  shows "load_params h (params_addr b p) = Some p"
proof -
  have c: "cells h (params_addr b p) = Some (ParamsObj (params_cell b p))"
    using assms by (simp add: params_at_def)
  have "load_params h (params_addr b p) =
      Some \<lparr>tempo = c_tempo (params_cell b p), key = c_key (params_cell b p), scale = scale p,
           timeSignature = timeSignature p, effects = effects p, synths = synths p,
           patterns = patterns p\<rparr>"
  proof (rule load_params_parts[OF c])
    show "get_strings h (c_scale (params_cell b p)) = Some (scale p)"
      using comp_scale[OF assms, of h] by (simp add: params_cell_def)
    show "get_signature h (c_timeSignature (params_cell b p)) = Some (timeSignature p)"
      using comp_signature[OF assms, of h] by (simp add: params_cell_def)
    show "load_effects h (c_effects (params_cell b p)) = Some (effects p)"
      using comp_effects[OF assms same_on_refl] by (simp add: params_cell_def)
    show "load_synths h (c_synths (params_cell b p)) = Some (synths p)"
      using comp_synths[OF assms same_on_refl] by (simp add: params_cell_def)
    show "load_patterns h (c_patterns (params_cell b p)) = Some (patterns p)"
      using comp_patterns[OF assms same_on_refl] by (simp add: params_cell_def)
  qed
  then show ?thesis by (simp add: params_cell_def)
qed

lemma params_at_same:
  assumes "params_at h b p" "same_on b (Suc (params_addr b p)) h h'"
  shows "params_at h' b p"
proof -
  have c: "cells h' x = cells h x" if "b \<le> x" "x \<le> params_addr b p" for x
    using assms(2) that by (simp add: same_on_def)
  have o: "b + 6 \<le> synths_addr b p" "synths_addr b p < patterns_addr b p"
    "patterns_addr b p < params_addr b p"
    by (rule addr_order)+
  have "same_on (b + 6) (b + 6 + 3 * length (synths p)) h h'"
    using assms(2) by (simp add: same_on_def synths_addr_def patterns_addr_def params_addr_def)
  moreover from assms(1) have "synths_at h (b + 6) (synths p)" by (simp add: params_at_def)
  ultimately have s: "synths_at h' (b + 6) (synths p)" by (rule synths_at_same[rotated])
  have "same_on (synths_addr b p + 1) (synths_addr b p + 1 + 5 * length (patterns p)) h h'"
    using assms(2) by (simp add: same_on_def synths_addr_def patterns_addr_def params_addr_def)
  moreover from assms(1) have "patterns_at h (synths_addr b p + 1) (patterns p)"
    by (simp add: params_at_def)
  ultimately have pp: "patterns_at h' (synths_addr b p + 1) (patterns p)"
    by (rule patterns_at_same[rotated])
  show ?thesis
    unfolding params_at_def
    using assms(1) s pp o c[of b] c[of "b + 1"] c[of "b + 2"] c[of "b + 3"] c[of "b + 4"]
      c[of "b + 5"] c[of "synths_addr b p"] c[of "patterns_addr b p"] c[of "params_addr b p"]
    by (simp add: params_at_def)
qed

lemma params_at_new_inv:
  assumes "params_at h b p" "params_addr b p < next_free h"
  shows "new_inv b (params_addr b p) h (params_cell b p) p"
proof -
  note o = addr_order[of b p]
  have so: "same_on l hi h h'" if "agree b (params_addr b p) h h'" "b \<le> l" "hi \<le> params_addr b p"
    for l hi h'
    using agree_same_on[OF that(1) that(2)] that(3) assms(2) by simp
  have 1: "supp b (params_addr b p) h get_strings b (scale p)"
    unfolding supp_def
  proof (intro allI impI)
    fix h' assume a: "agree b (params_addr b p) h h'"
    from so[OF a, of b "Suc b"] o have "cells h' b = cells h b" by (simp add: same_on_def)
    then show "get_strings h' b = Some (scale p)" by (rule comp_scale[OF assms(1)])
  qed
  have 2: "supp b (params_addr b p) h get_signature (b + 1) (timeSignature p)"
    unfolding supp_def
  proof (intro allI impI)
    fix h' assume a: "agree b (params_addr b p) h h'"
    from so[OF a, of b "b + 2"] o have "cells h' (b + 1) = cells h (b + 1)" by (simp add: same_on_def)
    then show "get_signature h' (b + 1) = Some (timeSignature p)"
      by (rule comp_signature[OF assms(1)])
  qed
  have 3: "supp b (params_addr b p) h load_effects (b + 5) (effects p)"
    unfolding supp_def
  proof (intro allI impI)
    fix h' assume a: "agree b (params_addr b p) h h'"
    from so[OF a, of "b + 2" "b + 6"] o have "same_on (b + 2) (b + 6) h h'" by simp
    then show "load_effects h' (b + 5) = Some (effects p)" by (rule comp_effects[OF assms(1)])
  qed
  have 4: "supp b (params_addr b p) h load_synths (synths_addr b p) (synths p)"
    unfolding supp_def
  proof (intro allI impI)
    fix h' assume a: "agree b (params_addr b p) h h'"
    from so[OF a, of "b + 6" "Suc (synths_addr b p)"] o
    have "same_on (b + 6) (Suc (synths_addr b p)) h h'" by simp
    then show "load_synths h' (synths_addr b p) = Some (synths p)"
      by (rule comp_synths[OF assms(1)])
  qed
  have 5: "supp b (params_addr b p) h load_patterns (patterns_addr b p) (patterns p)"
    unfolding supp_def
  proof (intro allI impI)
    fix h' assume a: "agree b (params_addr b p) h h'"
    from so[OF a, of "Suc (synths_addr b p)" "Suc (patterns_addr b p)"] o
    have "same_on (Suc (synths_addr b p)) (Suc (patterns_addr b p)) h h'" by simp
    then show "load_patterns h' (patterns_addr b p) = Some (patterns p)"
      by (rule comp_patterns[OF assms(1)])
  qed
  have c: "cells h (params_addr b p) = Some (ParamsObj (params_cell b p))"
    using assms(1) by (simp add: params_at_def)
  have le: "b \<le> params_addr b p" using o by simp
  show ?thesis
    unfolding new_inv_def using 1 2 3 4 5 c le assms(2) by (simp add: params_cell_def)
qed

lemma agree_alloc: "alloc ob h = (a, h') \<Longrightarrow> agree lo np h h'"
  by (auto simp: alloc_def agree_def)

lemma supp_alloc_strings:
  assumes "alloc (StringArray xs) h = (a, h')" "lo \<le> next_free h" "np < next_free h"
  shows "supp lo np h' get_strings a xs"
  using assms by (auto simp: supp_def agree_def alloc_def get_strings_def)

lemma supp_store_effects:
  assumes "store_effects fx h = (a, h')" "lo \<le> next_free h" "np < next_free h"
  shows "supp lo np h' load_effects a fx"
  using assms
  by (auto simp: supp_def agree_def store_effects_def alloc_def Let_def load_effects_def
      get_effects_def get_reverb_def get_delay_def get_filter_def)

lemma store_effects_frame:
  assumes "store_effects fx h = (a, h')"
  shows "extends h h'"
  using assms by (auto simp: store_effects_def alloc_def Let_def extends_def same_on_def)

lemma extends_agree: "extends h h' \<Longrightarrow> agree lo np h h'"
  by (simp add: extends_def agree_def same_on_def)

lemma supp_alloc_synth_refs:
  assumes "supp_list lo np h load_synth rs vs" "alloc (RefArray rs) h = (a, h')"
    "lo \<le> next_free h" "np < next_free h"
  shows "supp lo np h' load_synths a vs"
  unfolding supp_def
proof (intro allI impI)
  fix hx assume a: "agree lo np h' hx"
  from assms(2) have n: "next_free h \<le> next_free h'" by (auto simp: alloc_def)
  have "agree lo np h hx" using agree_trans_mono[OF agree_alloc[OF assms(2)] a n] by simp
  with assms(1) have m: "map (load_synth hx) rs = map Some vs" by (simp add: supp_list_def)
  from a assms(2,3,4) have "cells hx a = Some (RefArray rs)"
    by (auto simp: agree_def alloc_def)
  with m show "load_synths hx a = Some vs"
    by (simp add: load_synths_def get_refs_def those_map_Some)
qed

lemma supp_alloc_pattern_refs:
  assumes "supp_list lo np h load_pattern rs vs" "alloc (RefArray rs) h = (a, h')"
    "lo \<le> next_free h" "np < next_free h"
  shows "supp lo np h' load_patterns a vs"
  unfolding supp_def
proof (intro allI impI)
  fix hx assume a: "agree lo np h' hx"
  from assms(2) have n: "next_free h \<le> next_free h'" by (auto simp: alloc_def)
  have "agree lo np h hx" using agree_trans_mono[OF agree_alloc[OF assms(2)] a n] by simp
  with assms(1) have m: "map (load_pattern hx) rs = map Some vs" by (simp add: supp_list_def)
  from a assms(2,3,4) have "cells hx a = Some (RefArray rs)"
    by (auto simp: agree_def alloc_def)
  with m show "load_patterns hx a = Some vs"
    by (simp add: load_patterns_def get_refs_def those_map_Some)
qed

lemma mutateSynth_store_step:
  assumes "cells h b = Some (OscillatorObj (oscillator v))"
    and "cells h (b + 1) = Some (EnvelopeObj (envelope v))"
    and "cells h (b + 2) = Some (SynthObj \<lparr>c_synth_type = synth_type v, c_oscillator = b,
                                         c_envelope = b + 1, c_volume = volume v\<rparr>)"
    and "b + 3 \<le> next_free h"
    and "mutateSynth v i rnd n = (v', n1)"
  shows "\<exists>h4. mutateSynth_store i rnd (b + 2) (n, h) = Some (next_free h, (n1, h4))
           \<and> next_free h4 = Suc (next_free h)
           \<and> cells h4 b = Some (OscillatorObj (oscillator v'))
           \<and> cells h4 (b + 1) = Some (EnvelopeObj (envelope v'))
           \<and> cells h4 (next_free h) = Some (SynthObj \<lparr>c_synth_type = synth_type v',
                 c_oscillator = b, c_envelope = b + 1, c_volume = volume v'\<rparr>)
           \<and> (\<forall>a. a \<noteq> b \<and> a \<noteq> b + 1 \<and> a \<noteq> next_free h \<longrightarrow> cells h4 a = cells h a)"
proof (cases "i > 0.5")
  case True
  with assms show ?thesis
    by (auto simp: mutateSynth_store_def mutateSynth_def Let_def alloc_def put_def get_synth_def
        get_oscillator_def get_envelope_def)
next
  case False
  with assms show ?thesis
    by (auto simp: mutateSynth_store_def mutateSynth_def Let_def alloc_def put_def get_synth_def
        get_oscillator_def get_envelope_def)
qed

lemma mutatePattern_store_step:
  assumes "cells h b = Some (StringArray (pattern_notes v))"
    and "cells h (b + 1) = Some (StringArray (durations v))"
    and "cells h (b + 2) = Some (NumberArray (velocities v))"
    and "cells h (b + 3) = Some (NumberArray (timing v))"
    and "cells h (b + 4) = Some (PatternObj \<lparr>c_notes = b, c_durations = b + 1,
                                           c_velocities = b + 2, c_timing = b + 3\<rparr>)"
    and "mutateRhythm (durations v) i rnd n = (ds, n1)"
  shows "\<exists>h2. mutatePattern_store i rnd (b + 4) (n, h) = Some (Suc (next_free h), (n1, h2))
           \<and> next_free h2 = Suc (Suc (next_free h))
           \<and> cells h2 (next_free h) = Some (StringArray ds)
           \<and> cells h2 (Suc (next_free h)) = Some (PatternObj \<lparr>c_notes = b,
                 c_durations = next_free h, c_velocities = b + 2, c_timing = b + 3\<rparr>)
           \<and> extends h h2"
  using assms
  by (auto simp: mutatePattern_store_def Let_def alloc_def get_pattern_def get_strings_def
      extends_def same_on_def)

lemma map_state_length: "map_state f xs s = (ys, s') \<Longrightarrow> length ys = length xs"
  by (induction xs arbitrary: s ys s') (auto simp: Let_def split: prod.splits)

lemma synth_loop:
  assumes "synths_at h b vs" "b + 3 * length vs \<le> next_free h" "lo \<le> b"
    "np < b \<or> b + 3 * length vs \<le> np" "np < next_free h"
    and "map_state (\<lambda>s n. mutateSynth s i rnd n) vs n = (vs', n')"
  shows "\<exists>rs' h'. map_state_opt (mutateSynth_store i rnd) (refs_from b 3 (length vs)) (n, h)
                     = Some (rs', (n', h'))
           \<and> next_free h \<le> next_free h'
           \<and> (\<forall>a. a < next_free h \<and> \<not> (b \<le> a \<and> a < b + 3 * length vs)
                  \<longrightarrow> cells h' a = cells h a)
           \<and> synths_at h' b vs'
           \<and> supp_list lo np h' load_synth rs' vs'"
  using assms
proof (induction vs arbitrary: b h n vs' n')
  case Nil
  then show ?case by (simp add: supp_list_def)
next
  case (Cons v vs)
  obtain v1 n1 where m1: "mutateSynth v i rnd n = (v1, n1)" by (cases "mutateSynth v i rnd n")
  obtain vs1 n2 where m2: "map_state (\<lambda>s n. mutateSynth s i rnd n) vs n1 = (vs1, n2)"
    by (cases "map_state (\<lambda>s n. mutateSynth s i rnd n) vs n1")
  from Cons.prems(6) m1 m2 have eq: "vs' = v1 # vs1" "n' = n2" by (simp_all add: Let_def)
  from Cons.prems(1) have c: "cells h b = Some (OscillatorObj (oscillator v))"
    "cells h (b + 1) = Some (EnvelopeObj (envelope v))"
    "cells h (b + 2) = Some (SynthObj \<lparr>c_synth_type = synth_type v, c_oscillator = b,
                                         c_envelope = b + 1, c_volume = volume v\<rparr>)"
    "synths_at h (b + 3) vs"
    by simp_all
  from Cons.prems(2) have b3: "b + 3 \<le> next_free h" "b + 3 + 3 * length vs \<le> next_free h"
    by simp_all
  from mutateSynth_store_step[OF c(1) c(2) c(3) b3(1) m1]
  obtain h4 where st: "mutateSynth_store i rnd (b + 2) (n, h) = Some (next_free h, (n1, h4))"
    "next_free h4 = Suc (next_free h)"
    "cells h4 b = Some (OscillatorObj (oscillator v1))"
    "cells h4 (b + 1) = Some (EnvelopeObj (envelope v1))"
    "cells h4 (next_free h) = Some (SynthObj \<lparr>c_synth_type = synth_type v1,
                 c_oscillator = b, c_envelope = b + 1, c_volume = volume v1\<rparr>)"
    "\<forall>a. a \<noteq> b \<and> a \<noteq> b + 1 \<and> a \<noteq> next_free h \<longrightarrow> cells h4 a = cells h a"
    by blast
  have so: "same_on (b + 3) (b + 3 + 3 * length vs) h h4"
    using st(6) b3 by (auto simp: same_on_def)
  have s4: "synths_at h4 (b + 3) vs" by (rule synths_at_same[OF c(4) so])
  have p2: "b + 3 + 3 * length vs \<le> next_free h4" using b3 st(2) by simp
  have p3: "lo \<le> b + 3" using Cons.prems(3) by simp
  have p4: "np < b + 3 \<or> b + 3 + 3 * length vs \<le> np" using Cons.prems(4) by auto
  have p5: "np < next_free h4" using Cons.prems(5) st(2) by simp
  from Cons.IH[OF s4 p2 p3 p4 p5 m2]
  obtain rs1 h' where ih:
    "map_state_opt (mutateSynth_store i rnd) (refs_from (b + 3) 3 (length vs)) (n1, h4)
       = Some (rs1, (n2, h'))"
    "next_free h4 \<le> next_free h'"
    "\<forall>a. a < next_free h4 \<and> \<not> (b + 3 \<le> a \<and> a < b + 3 + 3 * length vs)
           \<longrightarrow> cells h' a = cells h4 a"
    "synths_at h' (b + 3) vs1"
    "supp_list lo np h' load_synth rs1 vs1"
    by blast
  have run: "map_state_opt (mutateSynth_store i rnd) (refs_from b 3 (length (v # vs))) (n, h)
       = Some (next_free h # rs1, (n2, h'))"
    using st(1) ih(1) by simp
  have keep: "cells h' a = cells h4 a" if "a < b + 3 \<or> a = next_free h" for a
    using ih(3) that b3 st(2) by auto
  have hb: "cells h' b = Some (OscillatorObj (oscillator v1))"
    "cells h' (b + 1) = Some (EnvelopeObj (envelope v1))"
    "cells h' (next_free h) = Some (SynthObj \<lparr>c_synth_type = synth_type v1,
                 c_oscillator = b, c_envelope = b + 1, c_volume = volume v1\<rparr>)"
    using keep[of b] keep[of "b + 1"] keep[of "next_free h"] st by simp_all
  have tv: "synth_type v1 = synth_type v" "volume v1 = volume v"
    using m1 by (auto simp: mutateSynth_def Let_def split: if_splits)
  have hb2: "cells h' (b + 2) = Some (SynthObj \<lparr>c_synth_type = synth_type v1, c_oscillator = b,
                                         c_envelope = b + 1, c_volume = volume v1\<rparr>)"
    using keep[of "b + 2"] st(6) b3 c(3) tv by simp
  have sa: "synths_at h' b (v1 # vs1)" using hb hb2 ih(4) by simp
  have frame: "\<forall>a. a < next_free h \<and> \<not> (b \<le> a \<and> a < b + 3 * length (v # vs))
                  \<longrightarrow> cells h' a = cells h a"
  proof (intro allI impI)
    fix a assume a: "a < next_free h \<and> \<not> (b \<le> a \<and> a < b + 3 * length (v # vs))"
    then have "cells h' a = cells h4 a" using ih(3) st(2) by auto
    also have "\<dots> = cells h a" using st(6) a by auto
    finally show "cells h' a = cells h a" .
  qed
  have head: "load_synth hx (next_free h) = Some v1" if ag: "agree lo np h' hx" for hx
  proof -
    have in_rng: "lo \<le> x \<and> x < next_free h' \<and> x \<noteq> np"
      if "x = b \<or> x = b + 1 \<or> x = next_free h" for x
      using that Cons.prems(3,4,5) b3 ih(2) st(2) by auto
    have "cells hx b = cells h' b" "cells hx (b + 1) = cells h' (b + 1)"
      "cells hx (next_free h) = cells h' (next_free h)"
      using ag in_rng unfolding agree_def by blast+
    with hb show ?thesis
      by (simp add: load_synth_def get_synth_def get_oscillator_def get_envelope_def)
  qed
  have sl: "supp_list lo np h' load_synth (next_free h # rs1) (v1 # vs1)"
    unfolding supp_list_def using head ih(5) by (simp add: supp_list_def)
  have nf: "next_free h \<le> next_free h'" using ih(2) st(2) by simp
  show ?case unfolding eq using run nf frame sa sl by blast
qed

lemma pattern_loop:
  assumes "patterns_at h b vs" "b + 5 * length vs \<le> next_free h" "lo \<le> b"
    "np < b \<or> b + 5 * length vs \<le> np" "np < next_free h"
    and "map_state (\<lambda>p n. let (ds, m) = mutateRhythm (durations p) i rnd n
                            in (p\<lparr>durations := ds\<rparr>, m)) vs n = (vs', n')"
  shows "\<exists>rs' h'. map_state_opt (mutatePattern_store i rnd) (refs_from b 5 (length vs)) (n, h)
                     = Some (rs', (n', h'))
           \<and> extends h h'
           \<and> supp_list lo np h' load_pattern rs' vs'"
  using assms
proof (induction vs arbitrary: b h n vs' n')
  case Nil
  then show ?case by (simp add: supp_list_def extends_refl)
next
  case (Cons v vs)
  let ?f = "\<lambda>p n. let (ds, m) = mutateRhythm (durations p) i rnd n in (p\<lparr>durations := ds\<rparr>, m)"
  obtain ds n1 where m1: "mutateRhythm (durations v) i rnd n = (ds, n1)"
    by (cases "mutateRhythm (durations v) i rnd n")
  obtain vs1 n2 where m2: "map_state ?f vs n1 = (vs1, n2)" by (cases "map_state ?f vs n1")
  from Cons.prems(6) m1 m2 have eq: "vs' = v\<lparr>durations := ds\<rparr> # vs1" "n' = n2"
    by (simp_all add: Let_def)
  from Cons.prems(1) have c: "cells h b = Some (StringArray (pattern_notes v))"
    "cells h (b + 1) = Some (StringArray (durations v))"
    "cells h (b + 2) = Some (NumberArray (velocities v))"
    "cells h (b + 3) = Some (NumberArray (timing v))"
    "cells h (b + 4) = Some (PatternObj \<lparr>c_notes = b, c_durations = b + 1,
                                           c_velocities = b + 2, c_timing = b + 3\<rparr>)"
    "patterns_at h (b + 5) vs"
    by simp_all
  from Cons.prems(2) have b5: "b + 5 \<le> next_free h" "b + 5 + 5 * length vs \<le> next_free h"
    by simp_all
  from mutatePattern_store_step[OF c(1) c(2) c(3) c(4) c(5) m1]
  obtain h2 where st: "mutatePattern_store i rnd (b + 4) (n, h) = Some (Suc (next_free h), (n1, h2))"
    "next_free h2 = Suc (Suc (next_free h))"
    "cells h2 (next_free h) = Some (StringArray ds)"
    "cells h2 (Suc (next_free h)) = Some (PatternObj \<lparr>c_notes = b,
                 c_durations = next_free h, c_velocities = b + 2, c_timing = b + 3\<rparr>)"
    "extends h h2"
    by blast
  have s2: "patterns_at h2 (b + 5) vs"
    by (rule patterns_at_same[OF c(6)]) (rule extends_same_on[OF st(5) b5(2)])
  have p2: "b + 5 + 5 * length vs \<le> next_free h2" using b5 st(2) by simp
  have p3: "lo \<le> b + 5" using Cons.prems(3) by simp
  have p4: "np < b + 5 \<or> b + 5 + 5 * length vs \<le> np" using Cons.prems(4) by auto
  have p5: "np < next_free h2" using Cons.prems(5) st(2) by simp
  from Cons.IH[OF s2 p2 p3 p4 p5 m2]
  obtain rs1 h' where ih:
    "map_state_opt (mutatePattern_store i rnd) (refs_from (b + 5) 5 (length vs)) (n1, h2)
       = Some (rs1, (n2, h'))"
    "extends h2 h'"
    "supp_list lo np h' load_pattern rs1 vs1"
    by blast
  have run: "map_state_opt (mutatePattern_store i rnd) (refs_from b 5 (length (v # vs))) (n, h)
       = Some (Suc (next_free h) # rs1, (n2, h'))"
    using st(1) ih(1) by (simp add: add.commute)
  have e: "extends h h'" by (rule extends_trans[OF st(5) ih(2)])
  have nf: "next_free h2 \<le> next_free h'" by (rule extends_next[OF ih(2)])
  have k2: "cells h' a = cells h2 a" if "a < next_free h2" for a
    by (rule extends_cells[OF ih(2) that])
  have k0: "cells h' a = cells h a" if "a < next_free h" for a
    by (rule extends_cells[OF e that])
  have head: "load_pattern hx (Suc (next_free h)) = Some (v\<lparr>durations := ds\<rparr>)"
    if ag: "agree lo np h' hx" for hx
  proof -
    have in_rng: "lo \<le> x \<and> x < next_free h' \<and> x \<noteq> np"
      if "x = b \<or> x = b + 2 \<or> x = b + 3 \<or> x = next_free h \<or> x = Suc (next_free h)" for x
      using that Cons.prems(3,4,5) b5 nf st(2) by auto
    have "cells hx b = cells h' b" "cells hx (b + 2) = cells h' (b + 2)"
      "cells hx (b + 3) = cells h' (b + 3)"
      "cells hx (next_free h) = cells h' (next_free h)"
      "cells hx (Suc (next_free h)) = cells h' (Suc (next_free h))"
      using ag in_rng unfolding agree_def by blast+
    moreover have "cells h' b = cells h b" "cells h' (b + 2) = cells h (b + 2)"
      "cells h' (b + 3) = cells h (b + 3)"
      using k0[of b] k0[of "b + 2"] k0[of "b + 3"] b5 by simp_all
    moreover have "cells h' (next_free h) = cells h2 (next_free h)"
      "cells h' (Suc (next_free h)) = cells h2 (Suc (next_free h))"
      using k2[of "next_free h"] k2[of "Suc (next_free h)"] st(2) by simp_all
    ultimately show ?thesis
      using c st(3,4)
      by (simp add: load_pattern_def get_pattern_def get_strings_def get_numbers_def)
  qed
  have sl: "supp_list lo np h' load_pattern (Suc (next_free h) # rs1) (v\<lparr>durations := ds\<rparr> # vs1)"
    unfolding supp_list_def using head ih(3) by (simp add: supp_list_def)
  show ?case unfolding eq using run e sl by blast
qed

lemma st_inv_cell: "st_inv b0 p0 lo np h c v \<Longrightarrow> cells h np = Some (ParamsObj c)"
  by (simp add: st_inv_def new_inv_def)

lemma st_inv_np: "st_inv b0 p0 lo np h c v \<Longrightarrow> np < next_free h"
  by (simp add: st_inv_def new_inv_def)

lemma st_inv_lo: "st_inv b0 p0 lo np h c v \<Longrightarrow> lo \<le> next_free h"
  by (simp add: st_inv_def new_inv_def)

lemma st_inv_loads:
  assumes "st_inv b0 p0 lo np h c v"
  shows "load_params h np = Some v" and "load_params h (params_addr b0 p0) = Some p0"
  using assms new_inv_load params_at_load by (auto simp: st_inv_def)

lemma alloc_fst: "fst (alloc ob h) = next_free h"
  by (simp add: alloc_def)

lemma alloc_pair: "alloc ob h = (next_free h, snd (alloc ob h))"
  by (simp add: alloc_def)

lemma st_inv_frame:
  assumes "st_inv b0 p0 lo np h c v" "extends h h2"
  shows "st_inv b0 p0 lo np h2 c v"
proof -
  from assms(1) have ni: "new_inv lo np h c v" and pa: "params_at h b0 p0"
    and o: "params_addr b0 p0 < np" "params_addr b0 p0 < next_free h" "np < next_free h"
    by (simp_all add: st_inv_def new_inv_def)
  have "new_inv lo np h2 c v"
    by (rule new_inv_mono[OF ni extends_agree[OF assms(2)] extends_cells[OF assms(2) o(3)]
          extends_next[OF assms(2)] order_refl])
  moreover have "params_at h2 b0 p0"
    by (rule params_at_same[OF pa]) (rule extends_same_on[OF assms(2)], use o in simp)
  ultimately show ?thesis using o extends_next[OF assms(2)] by (simp add: st_inv_def)
qed

lemma st_inv_put:
  assumes "st_inv b0 p0 lo np h c v"
    and "c_tempo c' = tempo v'" "c_key c' = key v'"
    and "supp lo np h get_strings (c_scale c') (scale v')"
    and "supp lo np h get_signature (c_timeSignature c') (timeSignature v')"
    and "supp lo np h load_effects (c_effects c') (effects v')"
    and "supp lo np h load_synths (c_synths c') (synths v')"
    and "supp lo np h load_patterns (c_patterns c') (patterns v')"
  shows "st_inv b0 p0 lo np (put np (ParamsObj c') h) c' v'"
proof -
  from assms(1) have ni: "new_inv lo np h c v" and pa: "params_at h b0 p0"
    and o: "params_addr b0 p0 < np" "params_addr b0 p0 < next_free h"
    by (simp_all add: st_inv_def)
  have "new_inv lo np (put np (ParamsObj c') h) c' v'"
    by (rule new_inv_put[OF ni assms(2-8)])
  moreover have "params_at (put np (ParamsObj c') h) b0 p0"
    by (rule params_at_same[OF pa]) (use o in \<open>simp add: same_on_def put_def\<close>)
  ultimately show ?thesis using o by (simp add: st_inv_def put_def)
qed

lemma st_inv_supps:
  assumes "st_inv b0 p0 lo np h c v"
  shows "supp lo np h get_strings (c_scale c) (scale v)"
    "supp lo np h get_signature (c_timeSignature c) (timeSignature v)"
    "supp lo np h load_effects (c_effects c) (effects v)"
    "supp lo np h load_synths (c_synths c) (synths v)"
    "supp lo np h load_patterns (c_patterns c) (patterns v)"
    "c_tempo c = tempo v" "c_key c = key v"
  using assms by (simp_all add: st_inv_def new_inv_def)

lemma set_scale:
  assumes "st_inv b0 p0 lo np h c v" "supp lo np h get_strings a xs"
  shows "st_inv b0 p0 lo np (put np (ParamsObj (c\<lparr>c_scale := a\<rparr>)) h) (c\<lparr>c_scale := a\<rparr>)
           (v\<lparr>scale := xs\<rparr>)"
  by (rule st_inv_put[OF assms(1)]) (use st_inv_supps[OF assms(1)] assms(2) in simp_all)

lemma set_key:
  assumes "st_inv b0 p0 lo np h c v"
  shows "st_inv b0 p0 lo np (put np (ParamsObj (c\<lparr>c_key := k\<rparr>)) h) (c\<lparr>c_key := k\<rparr>)
           (v\<lparr>key := k\<rparr>)"
  by (rule st_inv_put[OF assms(1)]) (use st_inv_supps[OF assms(1)] in simp_all)

lemma set_tempo:
  assumes "st_inv b0 p0 lo np h c v"
  shows "st_inv b0 p0 lo np (put np (ParamsObj (c\<lparr>c_tempo := t\<rparr>)) h) (c\<lparr>c_tempo := t\<rparr>)
           (v\<lparr>tempo := t\<rparr>)"
  by (rule st_inv_put[OF assms(1)]) (use st_inv_supps[OF assms(1)] in simp_all)

lemma set_effects:
  assumes "st_inv b0 p0 lo np h c v" "supp lo np h load_effects a fx"
  shows "st_inv b0 p0 lo np (put np (ParamsObj (c\<lparr>c_effects := a\<rparr>)) h) (c\<lparr>c_effects := a\<rparr>)
           (v\<lparr>effects := fx\<rparr>)"
  by (rule st_inv_put[OF assms(1)]) (use st_inv_supps[OF assms(1)] assms(2) in simp_all)

lemma set_synths:
  assumes "st_inv b0 p0 lo np h c v" "supp lo np h load_synths a sy"
  shows "st_inv b0 p0 lo np (put np (ParamsObj (c\<lparr>c_synths := a\<rparr>)) h) (c\<lparr>c_synths := a\<rparr>)
           (v\<lparr>synths := sy\<rparr>)"
  by (rule st_inv_put[OF assms(1)]) (use st_inv_supps[OF assms(1)] assms(2) in simp_all)

lemma set_patterns:
  assumes "st_inv b0 p0 lo np h c v" "supp lo np h load_patterns a ps"
  shows "st_inv b0 p0 lo np (put np (ParamsObj (c\<lparr>c_patterns := a\<rparr>)) h) (c\<lparr>c_patterns := a\<rparr>)
           (v\<lparr>patterns := ps\<rparr>)"
  by (rule st_inv_put[OF assms(1)]) (use st_inv_supps[OF assms(1)] assms(2) in simp_all)

lemma step_scale:
  assumes "st_inv b0 p0 lo np h c v"
  shows "set_params np (\<lambda>c. c\<lparr>c_scale := next_free h\<rparr>) (snd (alloc (StringArray xs) h))
           = Some (put np (ParamsObj (c\<lparr>c_scale := next_free h\<rparr>)) (snd (alloc (StringArray xs) h)))
       \<and> st_inv b0 p0 lo np
           (put np (ParamsObj (c\<lparr>c_scale := next_free h\<rparr>)) (snd (alloc (StringArray xs) h)))
           (c\<lparr>c_scale := next_free h\<rparr>) (v\<lparr>scale := xs\<rparr>)"
proof -
  let ?h' = "snd (alloc (StringArray xs) h)"
  have al: "alloc (StringArray xs) h = (next_free h, ?h')" by (rule alloc_pair)
  have i': "st_inv b0 p0 lo np ?h' c v"
    by (rule st_inv_frame[OF assms alloc_extends[OF al]])
  have s: "supp lo np ?h' get_strings (next_free h) xs"
    by (rule supp_alloc_strings[OF al st_inv_lo[OF assms] st_inv_np[OF assms]])
  show ?thesis
    using set_params_cell[OF st_inv_cell[OF i']] set_scale[OF i' s] by simp
qed

lemma step_field:
  assumes "st_inv b0 p0 lo np h c v"
  shows "set_params np f h = Some (put np (ParamsObj (f c)) h)"
  by (rule set_params_cell[OF st_inv_cell[OF assms]])

lemma store_setup:
  assumes "store_params p h = (params, h0)"
  obtains newParams h1 where
    "load_params h0 params = Some p"
    "store_params p h0 = (newParams, h1)"
    "get_params h1 params = Some (params_cell (next_free h) p)"
    "params = params_addr (next_free h) p"
    "next_free h0 = Suc params"
    "newParams = params_addr (next_free h0) p"
    "next_free h1 = Suc newParams"
    "params_at h1 (next_free h) p"
    "params_at h1 (next_free h0) p"
    "st_inv (next_free h) p (next_free h0) newParams h1 (params_cell (next_free h0) p) p"
proof -
  from store_params_layout[OF assms] have l0: "params = params_addr (next_free h) p"
    "next_free h0 = Suc params" "params_at h0 (next_free h) p"
    by simp_all
  obtain newParams h1 where s1: "store_params p h0 = (newParams, h1)"
    by (cases "store_params p h0")
  from store_params_layout[OF s1] have l1: "newParams = params_addr (next_free h0) p"
    "next_free h1 = Suc newParams" "extends h0 h1" "params_at h1 (next_free h0) p"
    by simp_all
  have ld: "load_params h0 params = Some p" using params_at_load[OF l0(3)] l0(1) by simp
  have pa: "params_at h1 (next_free h) p"
    by (rule params_at_same[OF l0(3)]) (rule extends_same_on[OF l1(3)], simp add: l0)
  have gp: "get_params h1 params = Some (params_cell (next_free h) p)"
    using pa l0(1) by (simp add: params_at_def get_params_def)
  have ni: "new_inv (next_free h0) newParams h1 (params_cell (next_free h0) p) p"
    unfolding l1(1) by (rule params_at_new_inv[OF l1(4)]) (simp add: l1(1)[symmetric] l1(2))
  have lt: "params < newParams"
    using l1(1) l0(2) addr_order[of "next_free h0" p] by simp
  have si: "st_inv (next_free h) p (next_free h0) newParams h1 (params_cell (next_free h0) p) p"
    unfolding st_inv_def using ni pa lt l0(1) l1(2) by simp
  show ?thesis by (rule that[OF ld s1 gp l0(1) l0(2) l1(1) l1(2) pa l1(4) si])
qed

lemma orig_scale: "params_at h b p \<Longrightarrow> get_strings h b = Some (scale p)"
  by (simp add: params_at_def get_strings_def)

lemma harmonic_refine:
  assumes sp: "store_params p h = (params, h0)"
    and ty: "strategy_type st = harmonic"
    and va: "applyMutation p st locked rnd n = Some (v, n')"
  shows "\<exists>hF out. applyMutation_store h0 params st locked rnd n = Some (hF, out, n')
           \<and> load_params hF out = Some v \<and> load_params hF params = Some p"
proof -
  from store_setup[OF sp] obtain newParams h1 where su:
    "load_params h0 params = Some p"
    "store_params p h0 = (newParams, h1)"
    "get_params h1 params = Some (params_cell (next_free h) p)"
    "params = params_addr (next_free h) p"
    "next_free h0 = Suc params"
    "newParams = params_addr (next_free h0) p"
    "next_free h1 = Suc newParams"
    "params_at h1 (next_free h) p"
    "params_at h1 (next_free h0) p"
    "st_inv (next_free h) p (next_free h0) newParams h1 (params_cell (next_free h0) p) p"
    by blast
  let ?i = "intensity st"
  let ?c1 = "params_cell (next_free h0) p"
  obtain sc1 m1 where ms: "mutateScale (scale p) ?i rnd n = (sc1, m1)"
    by (cases "mutateScale (scale p) ?i rnd n")
  define hA where "hA = (if ''scale'' \<notin> set locked
      then put newParams (ParamsObj (?c1\<lparr>c_scale := next_free h1\<rparr>)) (snd (alloc (StringArray sc1) h1))
      else h1)"
  define cA where "cA = (if ''scale'' \<notin> set locked then ?c1\<lparr>c_scale := next_free h1\<rparr> else ?c1)"
  define vA where "vA = (if ''scale'' \<notin> set locked then p\<lparr>scale := sc1\<rparr> else p)"
  define nA where "nA = (if ''scale'' \<notin> set locked then m1 else n)"
  have iA: "st_inv (next_free h) p (next_free h0) newParams hA cA vA"
    using step_scale[OF su(10), of sc1] su(10) by (simp add: hA_def cA_def vA_def)
  obtain k1 m2 where mk: "mutateKey (key p) ?i rnd nA = (k1, m2)"
    by (cases "mutateKey (key p) ?i rnd nA")
  define hB where "hB = (if ''key'' \<notin> set locked
      then put newParams (ParamsObj (cA\<lparr>c_key := k1\<rparr>)) hA else hA)"
  define cB where "cB = (if ''key'' \<notin> set locked then cA\<lparr>c_key := k1\<rparr> else cA)"
  define vB where "vB = (if ''key'' \<notin> set locked then vA\<lparr>key := k1\<rparr> else vA)"
  define nB where "nB = (if ''key'' \<notin> set locked then m2 else nA)"
  have iB: "st_inv (next_free h) p (next_free h0) newParams hB cB vB"
    using set_key[OF iA, of k1] iA by (simp add: hB_def cB_def vB_def)
  have val: "applyMutation p st locked rnd n = Some (vB, nB)"
    using ms mk by (auto simp: applyMutation_def ty Let_def vA_def nA_def vB_def nB_def)
  have run: "applyMutation_store h0 params st locked rnd n = Some (hB, newParams, nB)"
    using ms mk step_scale[OF su(10), of sc1] step_field[OF iA]
    by (auto simp: applyMutation_store_def su(1,2,3) ty orig_scale[OF su(8)] alloc_fst
        params_cell_def[of "next_free h"] hA_def hB_def nA_def nB_def cA_def split_def Let_def)
  from val va have "vB = v" "nB = n'" by simp_all
  with run st_inv_loads[OF iB] su(4) show ?thesis by auto
qed

lemma store_effects_pair: "store_effects fx h = (fst (store_effects fx h), snd (store_effects fx h))"
  by simp

lemma step_effects:
  assumes "st_inv b0 p0 lo np h c v"
  shows "set_params np (\<lambda>c. c\<lparr>c_effects := fst (store_effects fx h)\<rparr>) (snd (store_effects fx h))
           = Some (put np (ParamsObj (c\<lparr>c_effects := fst (store_effects fx h)\<rparr>))
                    (snd (store_effects fx h)))
       \<and> st_inv b0 p0 lo np
           (put np (ParamsObj (c\<lparr>c_effects := fst (store_effects fx h)\<rparr>)) (snd (store_effects fx h)))
           (c\<lparr>c_effects := fst (store_effects fx h)\<rparr>) (v\<lparr>effects := fx\<rparr>)"
proof -
  let ?a = "fst (store_effects fx h)" and ?h' = "snd (store_effects fx h)"
  have al: "store_effects fx h = (?a, ?h')" by simp
  have i': "st_inv b0 p0 lo np ?h' c v"
    by (rule st_inv_frame[OF assms store_effects_frame[OF al]])
  have s: "supp lo np ?h' load_effects ?a fx"
    by (rule supp_store_effects[OF al st_inv_lo[OF assms] st_inv_np[OF assms]])
  show ?thesis
    using set_params_cell[OF st_inv_cell[OF i']] set_effects[OF i' s] by simp
qed

lemma step_synth_refs:
  assumes "st_inv b0 p0 lo np h c v" "supp_list lo np h load_synth rs vs"
  shows "set_params np (\<lambda>c. c\<lparr>c_synths := next_free h\<rparr>) (snd (alloc (RefArray rs) h))
           = Some (put np (ParamsObj (c\<lparr>c_synths := next_free h\<rparr>)) (snd (alloc (RefArray rs) h)))
       \<and> st_inv b0 p0 lo np
           (put np (ParamsObj (c\<lparr>c_synths := next_free h\<rparr>)) (snd (alloc (RefArray rs) h)))
           (c\<lparr>c_synths := next_free h\<rparr>) (v\<lparr>synths := vs\<rparr>)"
proof -
  let ?h' = "snd (alloc (RefArray rs) h)"
  have al: "alloc (RefArray rs) h = (next_free h, ?h')" by (rule alloc_pair)
  have i': "st_inv b0 p0 lo np ?h' c v"
    by (rule st_inv_frame[OF assms(1) alloc_extends[OF al]])
  have s: "supp lo np ?h' load_synths (next_free h) vs"
    by (rule supp_alloc_synth_refs[OF assms(2) al st_inv_lo[OF assms(1)] st_inv_np[OF assms(1)]])
  show ?thesis
    using set_params_cell[OF st_inv_cell[OF i']] set_synths[OF i' s] by simp
qed

lemma step_pattern_refs:
  assumes "st_inv b0 p0 lo np h c v" "supp_list lo np h load_pattern rs vs"
  shows "set_params np (\<lambda>c. c\<lparr>c_patterns := next_free h\<rparr>) (snd (alloc (RefArray rs) h))
           = Some (put np (ParamsObj (c\<lparr>c_patterns := next_free h\<rparr>)) (snd (alloc (RefArray rs) h)))
       \<and> st_inv b0 p0 lo np
           (put np (ParamsObj (c\<lparr>c_patterns := next_free h\<rparr>)) (snd (alloc (RefArray rs) h)))
           (c\<lparr>c_patterns := next_free h\<rparr>) (v\<lparr>patterns := vs\<rparr>)"
proof -
  let ?h' = "snd (alloc (RefArray rs) h)"
  have al: "alloc (RefArray rs) h = (next_free h, ?h')" by (rule alloc_pair)
  have i': "st_inv b0 p0 lo np ?h' c v"
    by (rule st_inv_frame[OF assms(1) alloc_extends[OF al]])
  have s: "supp lo np ?h' load_patterns (next_free h) vs"
    by (rule supp_alloc_pattern_refs[OF assms(2) al st_inv_lo[OF assms(1)] st_inv_np[OF assms(1)]])
  show ?thesis
    using set_params_cell[OF st_inv_cell[OF i']] set_patterns[OF i' s] by simp
qed

lemma st_inv_lower:
  assumes "st_inv b0 p0 lo np h c v" "lo2 \<le> lo"
  shows "st_inv b0 p0 lo2 np h c v"
  using assms new_inv_mono[OF _ agree_refl refl order_refl assms(2)]
  by (simp add: st_inv_def)

lemma radical_refine:
  assumes sp: "store_params p h = (params, h0)"
    and ty: "strategy_type st = radical"
    and va: "applyMutation p st locked rnd n = Some (v, n')"
  shows "\<exists>hF out. applyMutation_store h0 params st locked rnd n = Some (hF, out, n')
           \<and> load_params hF out = Some v \<and> load_params hF params = Some p"
proof -
  from store_setup[OF sp] obtain newParams h1 where su:
    "load_params h0 params = Some p"
    "store_params p h0 = (newParams, h1)"
    "get_params h1 params = Some (params_cell (next_free h) p)"
    "params = params_addr (next_free h) p"
    "next_free h0 = Suc params"
    "newParams = params_addr (next_free h0) p"
    "next_free h1 = Suc newParams"
    "params_at h1 (next_free h) p"
    "params_at h1 (next_free h0) p"
    "st_inv (next_free h) p (next_free h0) newParams h1 (params_cell (next_free h0) p) p"
    by blast
  let ?c1 = "params_cell (next_free h0) p"
  obtain sc1 m1 where ms: "generateRadicalScale rnd n = (sc1, m1)"
    by (cases "generateRadicalScale rnd n")
  define hA where "hA = (if ''scale'' \<notin> set locked
      then put newParams (ParamsObj (?c1\<lparr>c_scale := next_free h1\<rparr>)) (snd (alloc (StringArray sc1) h1))
      else h1)"
  define cA where "cA = (if ''scale'' \<notin> set locked then ?c1\<lparr>c_scale := next_free h1\<rparr> else ?c1)"
  define vA where "vA = (if ''scale'' \<notin> set locked then p\<lparr>scale := sc1\<rparr> else p)"
  define nA where "nA = (if ''scale'' \<notin> set locked then m1 else n)"
  have iA: "st_inv (next_free h) p (next_free h0) newParams hA cA vA"
    using step_scale[OF su(10), of sc1] su(10) by (simp add: hA_def cA_def vA_def)
  define t1 where "t1 = 40 + draw_val (rnd nA) * 160"
  define hB where "hB = (if ''tempo'' \<notin> set locked
      then put newParams (ParamsObj (cA\<lparr>c_tempo := t1\<rparr>)) hA else hA)"
  define cB where "cB = (if ''tempo'' \<notin> set locked then cA\<lparr>c_tempo := t1\<rparr> else cA)"
  define vB where "vB = (if ''tempo'' \<notin> set locked then vA\<lparr>tempo := t1\<rparr> else vA)"
  define nB where "nB = (if ''tempo'' \<notin> set locked then Suc nA else nA)"
  have iB: "st_inv (next_free h) p (next_free h0) newParams hB cB vB"
    using set_tempo[OF iA, of t1] iA by (simp add: hB_def cB_def vB_def)
  have val: "applyMutation p st locked rnd n = Some (vB, nB)"
    using ms by (auto simp: applyMutation_def ty Let_def vA_def nA_def vB_def nB_def t1_def)
  have run: "applyMutation_store h0 params st locked rnd n = Some (hB, newParams, nB)"
    using ms step_scale[OF su(10), of sc1] step_field[OF iA]
    by (auto simp: applyMutation_store_def su(1,2,3) ty alloc_fst
        hA_def hB_def nA_def nB_def cA_def t1_def split_def Let_def)
  from val va have "vB = v" "nB = n'" by simp_all
  with run st_inv_loads[OF iB] su(4) show ?thesis by auto
qed

lemma orig_pattern_refs:
  "params_at h b p \<Longrightarrow>
     get_refs h (patterns_addr b p) = Some (refs_from (synths_addr b p + 1) 5 (length (patterns p)))"
  by (simp add: params_at_def get_refs_def)

lemma orig_synth_refs:
  "params_at h b p \<Longrightarrow>
     get_refs h (synths_addr b p) = Some (refs_from (b + 6) 3 (length (synths p)))"
  by (simp add: params_at_def get_refs_def)

lemma rhythmic_refine:
  assumes sp: "store_params p h = (params, h0)"
    and ty: "strategy_type st = rhythmic"
    and va: "applyMutation p st locked rnd n = Some (v, n')"
  shows "\<exists>hF out. applyMutation_store h0 params st locked rnd n = Some (hF, out, n')
           \<and> load_params hF out = Some v \<and> load_params hF params = Some p"
proof -
  from store_setup[OF sp] obtain newParams h1 where su:
    "load_params h0 params = Some p"
    "store_params p h0 = (newParams, h1)"
    "get_params h1 params = Some (params_cell (next_free h) p)"
    "params = params_addr (next_free h) p"
    "next_free h0 = Suc params"
    "newParams = params_addr (next_free h0) p"
    "next_free h1 = Suc newParams"
    "params_at h1 (next_free h) p"
    "params_at h1 (next_free h0) p"
    "st_inv (next_free h) p (next_free h0) newParams h1 (params_cell (next_free h0) p) p"
    by blast
  let ?b0 = "next_free h"
  let ?i = "intensity st"
  let ?c1 = "params_cell (next_free h0) p"
  have le: "?b0 \<le> next_free h0" using su(4,5) addr_order[of ?b0 p] by simp
  have i0: "st_inv ?b0 p ?b0 newParams h1 ?c1 p" by (rule st_inv_lower[OF su(10) le])
  obtain t1 m1 where mt: "mutateTempo (tempo p) ?i rnd n = (t1, m1)"
    by (cases "mutateTempo (tempo p) ?i rnd n")
  define hA where "hA = (if ''tempo'' \<notin> set locked
      then put newParams (ParamsObj (?c1\<lparr>c_tempo := t1\<rparr>)) h1 else h1)"
  define cA where "cA = (if ''tempo'' \<notin> set locked then ?c1\<lparr>c_tempo := t1\<rparr> else ?c1)"
  define vA where "vA = (if ''tempo'' \<notin> set locked then p\<lparr>tempo := t1\<rparr> else p)"
  define nA where "nA = (if ''tempo'' \<notin> set locked then m1 else n)"
  have iA: "st_inv ?b0 p ?b0 newParams hA cA vA"
    using set_tempo[OF i0, of t1] i0 by (simp add: hA_def cA_def vA_def)
  have paA: "params_at hA ?b0 p" using iA by (simp add: st_inv_def)
  let ?f = "\<lambda>p n. let (ds, m) = mutateRhythm (durations p) ?i rnd n in (p\<lparr>durations := ds\<rparr>, m)"
  obtain ps1 m2 where mp: "map_state ?f (patterns p) nA = (ps1, m2)"
    by (cases "map_state ?f (patterns p) nA")
  let ?pb = "synths_addr ?b0 p + 1"
  have pat: "patterns_at hA ?pb (patterns p)" using paA by (simp add: params_at_def)
  have r2: "?pb + 5 * length (patterns p) \<le> next_free hA"
    using iA su(4) by (simp add: st_inv_def patterns_addr_def params_addr_def)
  have r3: "?b0 \<le> ?pb" by (simp add: synths_addr_def)
  have r4: "newParams < ?pb \<or> ?pb + 5 * length (patterns p) \<le> newParams"
    using iA by (simp add: st_inv_def patterns_addr_def params_addr_def)
  from pattern_loop[OF pat r2 r3 r4 st_inv_np[OF iA] mp]
  obtain rs1 hL where lp:
    "map_state_opt (mutatePattern_store ?i rnd) (refs_from ?pb 5 (length (patterns p))) (nA, hA)
       = Some (rs1, (m2, hL))"
    "extends hA hL" "supp_list ?b0 newParams hL load_pattern rs1 ps1"
    by blast
  have iL: "st_inv ?b0 p ?b0 newParams hL cA vA" by (rule st_inv_frame[OF iA lp(2)])
  define hB where "hB = (if ''patterns'' \<notin> set locked
      then put newParams (ParamsObj (cA\<lparr>c_patterns := next_free hL\<rparr>)) (snd (alloc (RefArray rs1) hL))
      else hA)"
  define cB where "cB = (if ''patterns'' \<notin> set locked then cA\<lparr>c_patterns := next_free hL\<rparr> else cA)"
  define vB where "vB = (if ''patterns'' \<notin> set locked then vA\<lparr>patterns := ps1\<rparr> else vA)"
  define nB where "nB = (if ''patterns'' \<notin> set locked then m2 else nA)"
  have iB: "st_inv ?b0 p ?b0 newParams hB cB vB"
    using step_pattern_refs[OF iL lp(3)] iA by (simp add: hB_def cB_def vB_def)
  have val: "applyMutation p st locked rnd n = Some (vB, nB)"
    using mt mp by (auto simp: applyMutation_def ty Let_def vA_def nA_def vB_def nB_def)
  have gr: "get_refs hA (patterns_addr ?b0 p) = Some (refs_from ?pb 5 (length (patterns p)))"
    by (rule orig_pattern_refs[OF paA])
  have run: "applyMutation_store h0 params st locked rnd n = Some (hB, newParams, nB)"
    using mt lp(1) gr step_pattern_refs[OF iL lp(3)] step_field[OF i0]
    by (auto simp: applyMutation_store_def su(1,2,3) ty alloc_fst params_cell_def[of ?b0]
        hA_def hB_def nA_def nB_def cA_def split_def Let_def)
  from val va have "vB = v" "nB = n'" by simp_all
  with run st_inv_loads[OF iB] su(4) show ?thesis by auto
qed

lemma params_at_synths:
  assumes "params_at h b p"
    and "\<forall>a. a \<le> params_addr b p \<and> \<not> (b + 6 \<le> a \<and> a < b + 6 + 3 * length (synths p))
           \<longrightarrow> cells h' a = cells h a"
    and "synths_at h' (b + 6) vs1" "length vs1 = length (synths p)"
  shows "params_at h' b (p\<lparr>synths := vs1\<rparr>)"
proof -
  note o = addr_order[of b p]
  have sa: "synths_addr b (p\<lparr>synths := vs1\<rparr>) = synths_addr b p"
    "patterns_addr b (p\<lparr>synths := vs1\<rparr>) = patterns_addr b p"
    "params_addr b (p\<lparr>synths := vs1\<rparr>) = params_addr b p"
    "params_cell b (p\<lparr>synths := vs1\<rparr>) = params_cell b p"
    using assms(4)
    by (simp_all add: synths_addr_def patterns_addr_def params_addr_def params_cell_def)
  have c: "cells h' x = cells h x"
    if "x \<le> params_addr b p" "x < b + 6 \<or> synths_addr b p \<le> x" for x
    using assms(2) that by (auto simp: synths_addr_def)
  have "same_on (synths_addr b p + 1) (synths_addr b p + 1 + 5 * length (patterns p)) h h'"
    using c o by (auto simp: same_on_def patterns_addr_def params_addr_def)
  moreover from assms(1) have "patterns_at h (synths_addr b p + 1) (patterns p)"
    by (simp add: params_at_def)
  ultimately have pp: "patterns_at h' (synths_addr b p + 1) (patterns p)"
    by (rule patterns_at_same[rotated])
  have cs: "cells h' b = cells h b" "cells h' (b + 1) = cells h (b + 1)"
    "cells h' (b + 2) = cells h (b + 2)" "cells h' (b + 3) = cells h (b + 3)"
    "cells h' (b + 4) = cells h (b + 4)" "cells h' (b + 5) = cells h (b + 5)"
    "cells h' (synths_addr b p) = cells h (synths_addr b p)"
    "cells h' (patterns_addr b p) = cells h (patterns_addr b p)"
    "cells h' (params_addr b p) = cells h (params_addr b p)"
    using o by (auto intro!: c)
  show ?thesis
    unfolding params_at_def sa
    using assms(1,3,4) pp cs by (simp add: params_at_def)
qed

lemma orig_effects: "params_at h b p \<Longrightarrow> load_effects h (b + 5) = Some (effects p)"
  by (rule comp_effects[OF _ same_on_refl])

lemma timbral_refine:
  assumes sp: "store_params p h = (params, h0)"
    and ty: "strategy_type st = timbral"
    and va: "applyMutation p st locked rnd n = Some (v, n')"
  shows "\<exists>hF out. applyMutation_store h0 params st locked rnd n = Some (hF, out, n')
           \<and> load_params hF out = Some v
           \<and> load_params hF params
               = Some (if ''synths'' \<notin> set locked then p\<lparr>synths := synths v\<rparr> else p)"
proof -
  from store_setup[OF sp] obtain newParams h1 where su:
    "load_params h0 params = Some p"
    "store_params p h0 = (newParams, h1)"
    "get_params h1 params = Some (params_cell (next_free h) p)"
    "params = params_addr (next_free h) p"
    "next_free h0 = Suc params"
    "newParams = params_addr (next_free h0) p"
    "next_free h1 = Suc newParams"
    "params_at h1 (next_free h) p"
    "params_at h1 (next_free h0) p"
    "st_inv (next_free h) p (next_free h0) newParams h1 (params_cell (next_free h0) p) p"
    by blast
  let ?b0 = "next_free h"
  let ?b1 = "next_free h0"
  let ?i = "intensity st"
  let ?c1 = "params_cell (next_free h0) p"
  note o = addr_order[of ?b0 p]
  have le: "?b0 \<le> ?b1" using su(4,5) o by simp
  have np1: "newParams < next_free h1" "params < newParams" "?b1 \<le> newParams"
    using su(10) su(4) by (simp_all add: st_inv_def new_inv_def)
  obtain vs1 m1 where ml: "map_state (\<lambda>s n. mutateSynth s ?i rnd n) (synths p) n = (vs1, m1)"
    by (cases "map_state (\<lambda>s n. mutateSynth s ?i rnd n) (synths p) n")
  have len: "length vs1 = length (synths p)" by (rule map_state_length[OF ml])
  have sat: "synths_at h1 (?b0 + 6) (synths p)" using su(8) by (simp add: params_at_def)
  have r2: "?b0 + 6 + 3 * length (synths p) \<le> next_free h1"
    using np1 su(4) o by (simp add: synths_addr_def)
  have r4: "newParams < ?b0 + 6 \<or> ?b0 + 6 + 3 * length (synths p) \<le> newParams"
    using np1 su(4) o by (simp add: synths_addr_def)
  from synth_loop[OF sat r2 _ r4 np1(1) ml, of ?b0]
  obtain rs1 hL where lp:
    "map_state_opt (mutateSynth_store ?i rnd) (refs_from (?b0 + 6) 3 (length (synths p))) (n, h1)
       = Some (rs1, (m1, hL))"
    "next_free h1 \<le> next_free hL"
    "\<forall>a. a < next_free h1 \<and> \<not> (?b0 + 6 \<le> a \<and> a < ?b0 + 6 + 3 * length (synths p))
           \<longrightarrow> cells hL a = cells h1 a"
    "synths_at hL (?b0 + 6) vs1"
    "supp_list ?b0 newParams hL load_synth rs1 vs1"
    by auto
  have paL: "params_at hL ?b0 (p\<lparr>synths := vs1\<rparr>)"
    by (rule params_at_synths[OF su(8) _ lp(4) len]) (use lp(3) np1 su(4) in auto)
  have agL: "agree ?b1 newParams h1 hL"
    unfolding agree_def using lp(3) su(4,5) o by (auto simp: synths_addr_def)
  have cL: "cells hL newParams = cells h1 newParams"
    using lp(3) np1 su(4) o by (auto simp: synths_addr_def)
  have niL: "new_inv ?b0 newParams hL ?c1 p"
    by (rule new_inv_mono[OF _ agL cL lp(2) le]) (use su(10) in \<open>simp add: st_inv_def\<close>)
  have pe: "params_addr ?b0 (p\<lparr>synths := vs1\<rparr>) = params_addr ?b0 p"
    using len by (simp add: synths_addr_def patterns_addr_def params_addr_def)
  have iL: "st_inv ?b0 (p\<lparr>synths := vs1\<rparr>) ?b0 newParams hL ?c1 p"
    unfolding st_inv_def pe using niL paL np1 lp(2) su(4) by simp
  have i0: "st_inv ?b0 p ?b0 newParams h1 ?c1 p" by (rule st_inv_lower[OF su(10) le])
  define pA where "pA = (if ''synths'' \<notin> set locked then p\<lparr>synths := vs1\<rparr> else p)"
  define hA where "hA = (if ''synths'' \<notin> set locked
      then put newParams (ParamsObj (?c1\<lparr>c_synths := next_free hL\<rparr>)) (snd (alloc (RefArray rs1) hL))
      else h1)"
  define cA where "cA = (if ''synths'' \<notin> set locked then ?c1\<lparr>c_synths := next_free hL\<rparr> else ?c1)"
  define vA where "vA = (if ''synths'' \<notin> set locked then p\<lparr>synths := vs1\<rparr> else p)"
  define nA where "nA = (if ''synths'' \<notin> set locked then m1 else n)"
  have iA: "st_inv ?b0 pA ?b0 newParams hA cA vA"
    using step_synth_refs[OF iL lp(5)] i0 by (simp add: hA_def cA_def vA_def pA_def)
  have paA: "params_at hA ?b0 pA" using iA by (simp add: st_inv_def)
  have fxA: "load_effects hA (?b0 + 5) = Some (effects p)"
    using orig_effects[OF paA] by (simp add: pA_def)
  obtain fx1 m2 where me: "mutateEffects (effects p) ?i rnd nA = (fx1, m2)"
    by (cases "mutateEffects (effects p) ?i rnd nA")
  define hB where "hB = (if ''effects'' \<notin> set locked
      then put newParams (ParamsObj (cA\<lparr>c_effects := fst (store_effects fx1 hA)\<rparr>))
             (snd (store_effects fx1 hA))
      else hA)"
  define cB where "cB = (if ''effects'' \<notin> set locked
      then cA\<lparr>c_effects := fst (store_effects fx1 hA)\<rparr> else cA)"
  define vB where "vB = (if ''effects'' \<notin> set locked then vA\<lparr>effects := fx1\<rparr> else vA)"
  define nB where "nB = (if ''effects'' \<notin> set locked then m2 else nA)"
  have iB: "st_inv ?b0 pA ?b0 newParams hB cB vB"
    using step_effects[OF iA, of fx1] iA by (simp add: hB_def cB_def vB_def)
  have val: "applyMutation p st locked rnd n = Some (vB, nB)"
    using ml me by (auto simp: applyMutation_def ty Let_def vA_def nA_def vB_def nB_def)
  have gr: "get_refs h1 (synths_addr ?b0 p) = Some (refs_from (?b0 + 6) 3 (length (synths p)))"
    by (rule orig_synth_refs[OF su(8)])
  have run: "applyMutation_store h0 params st locked rnd n = Some (hB, newParams, nB)"
    using me lp(1) gr fxA step_synth_refs[OF iL lp(5)] step_effects[OF iA, of fx1]
    by (auto simp: applyMutation_store_def su(1,2,3) ty alloc_fst params_cell_def[of ?b0]
        hA_def hB_def nA_def nB_def cA_def split_def Let_def)
  from val va have ev: "vB = v" "nB = n'" by simp_all
  have sv: "''synths'' \<notin> set locked \<Longrightarrow> synths v = vs1"
    using ev(1) by (auto simp: vB_def vA_def)
  have pAe: "pA = (if ''synths'' \<notin> set locked then p\<lparr>synths := synths v\<rparr> else p)"
    using sv by (simp add: pA_def)
  have "params_addr ?b0 pA = params" using pe su(4) by (simp add: pA_def)
  with run st_inv_loads[OF iB] ev pAe show ?thesis by auto
qed

lemma cells_put: "cells (put a ob h) x = (if x = a then Some ob else cells h x)"
  by (simp add: put_def)

lemma same_on_put: "a < lo \<or> hi \<le> a \<Longrightarrow> same_on lo hi h (put a ob h)"
  by (auto simp: same_on_def put_def)

lemma textural_refine:
  assumes sp: "store_params p h = (params, h0)"
    and ty: "strategy_type st = textural"
    and va: "applyMutation p st locked rnd n = Some (v, n')"
  shows "\<exists>hF out. applyMutation_store h0 params st locked rnd n = Some (hF, out, n')
           \<and> load_params hF out = Some v \<and> load_params hF params = Some p"
proof -
  from store_setup[OF sp] obtain newParams h1 where su:
    "load_params h0 params = Some p"
    "store_params p h0 = (newParams, h1)"
    "get_params h1 params = Some (params_cell (next_free h) p)"
    "params = params_addr (next_free h) p"
    "next_free h0 = Suc params"
    "newParams = params_addr (next_free h0) p"
    "next_free h1 = Suc newParams"
    "params_at h1 (next_free h) p"
    "params_at h1 (next_free h0) p"
    "st_inv (next_free h) p (next_free h0) newParams h1 (params_cell (next_free h0) p) p"
    by blast
  let ?b0 = "next_free h"
  let ?b1 = "next_free h0"
  let ?i = "intensity st"
  note o = addr_order[of ?b1 p]
  show ?thesis
  proof (cases "''effects'' \<in> set locked")
    case True
    with va have "v = p" "n' = n" by (simp_all add: applyMutation_def ty Let_def)
    moreover have "applyMutation_store h0 params st locked rnd n = Some (h1, newParams, n)"
      using True by (simp add: applyMutation_store_def su(1,2,3) ty Let_def)
    ultimately show ?thesis using st_inv_loads[OF su(10)] su(4) by auto
  next
    case False
    let ?rv = "(reverb (effects p))\<lparr>reverb_wet := reverb_wet (reverb (effects p))
                 + (draw_val (rnd n) - 0.5) * ?i * 0.3\<rparr>"
    let ?dl = "(delay (effects p))\<lparr>delay_wet := delay_wet (delay (effects p))
                 + (draw_val (rnd (Suc n)) - 0.5) * ?i * 0.2\<rparr>"
    let ?hF = "put (?b1 + 3) (DelayObj ?dl) (put (?b1 + 2) (ReverbObj ?rv) h1)"
    from False va have ve: "v = p\<lparr>effects := (effects p)\<lparr>reverb := ?rv, delay := ?dl\<rparr>\<rparr>"
      "n' = Suc (Suc n)"
      by (auto simp: applyMutation_def ty Let_def)
    have c1: "cells h1 newParams = Some (ParamsObj (params_cell ?b1 p))"
      "cells h1 (?b1 + 2) = Some (ReverbObj (reverb (effects p)))"
      "cells h1 (?b1 + 3) = Some (DelayObj (delay (effects p)))"
      "cells h1 (?b1 + 4) = Some (FilterObj (filter_fx (effects p)))"
      "cells h1 (?b1 + 5) = Some (EffectsObj \<lparr>c_reverb = ?b1 + 2, c_delay = ?b1 + 3,
                                               c_filter = ?b1 + 4\<rparr>)"
      using su(9) su(6) by (simp_all add: params_at_def)
    have gn: "get_params h1 newParams = Some (params_cell ?b1 p)"
      using c1(1) by (simp add: get_params_def)
    have ge: "get_effects h1 (?b1 + 5) = Some \<lparr>c_reverb = ?b1 + 2, c_delay = ?b1 + 3,
                                               c_filter = ?b1 + 4\<rparr>"
      "get_reverb h1 (?b1 + 2) = Some (reverb (effects p))"
      "get_delay (put (?b1 + 2) (ReverbObj ?rv) h1) (?b1 + 3) = Some (delay (effects p))"
      using c1 by (simp_all add: get_effects_def get_reverb_def get_delay_def cells_put)
    have run: "applyMutation_store h0 params st locked rnd n = Some (?hF, newParams, Suc (Suc n))"
      using False ge
      by (simp add: applyMutation_store_def su(1,2,3) ty Let_def gn params_cell_def[of ?b1])
    have np: "?b1 + 6 \<le> newParams" using su(6) o by simp
    have cF: "cells ?hF newParams = Some (ParamsObj (params_cell ?b1 p))"
      using c1(1) np by (simp add: cells_put)
    have so: "same_on lo hi h1 ?hF" if "hi \<le> ?b1 + 2 \<or> ?b1 + 4 \<le> lo" for lo hi
      using that by (auto simp: same_on_def cells_put)
    have l1: "get_strings ?hF (c_scale (params_cell ?b1 p)) = Some (scale p)"
      using comp_scale[OF su(9), of ?hF] by (simp add: params_cell_def cells_put)
    have l2: "get_signature ?hF (c_timeSignature (params_cell ?b1 p)) = Some (timeSignature p)"
      using comp_signature[OF su(9), of ?hF] by (simp add: params_cell_def cells_put)
    have l3: "load_effects ?hF (c_effects (params_cell ?b1 p))
                = Some ((effects p)\<lparr>reverb := ?rv, delay := ?dl\<rparr>)"
      using c1 by (simp add: params_cell_def load_effects_def get_effects_def get_reverb_def
          get_delay_def get_filter_def cells_put)
    have l4: "load_synths ?hF (c_synths (params_cell ?b1 p)) = Some (synths p)"
      using comp_synths[OF su(9) so] by (simp add: params_cell_def)
    have l5: "load_patterns ?hF (c_patterns (params_cell ?b1 p)) = Some (patterns p)"
      using comp_patterns[OF su(9) so] o by (simp add: params_cell_def)
    have ldF: "load_params ?hF newParams = Some v"
      using load_params_parts[OF cF l1 l2 l3 l4 l5] by (simp add: ve params_cell_def)
    have "same_on ?b0 (Suc (params_addr ?b0 p)) h1 ?hF"
      using su(4,5) by (auto simp: same_on_def cells_put)
    from params_at_load[OF params_at_same[OF su(8) this]] su(4)
    have "load_params ?hF params = Some p" by simp
    with run ldF ve show ?thesis by auto
  qed
qed

lemma refs_from_length: "length (refs_from b s k) = k"
  by (induction k arbitrary: b) simp_all

lemma map_heads:
  "map f xs = map g ys \<Longrightarrow> xs = a # as \<Longrightarrow> ys = b # bs \<Longrightarrow> f a = g b"
  by simp

lemma structural_refine:
  assumes sp: "store_params p h = (params, h0)"
    and ty: "strategy_type st = structural"
  shows "(applyMutation p st locked rnd n = None \<longrightarrow>
            applyMutation_store h0 params st locked rnd n = None)
       \<and> (\<forall>v n'. applyMutation p st locked rnd n = Some (v, n') \<longrightarrow>
            (\<exists>hF out. applyMutation_store h0 params st locked rnd n = Some (hF, out, n')
               \<and> load_params hF out = Some v \<and> load_params hF params = Some p))"
proof -
  from store_setup[OF sp] obtain newParams h1 where su:
    "load_params h0 params = Some p"
    "store_params p h0 = (newParams, h1)"
    "get_params h1 params = Some (params_cell (next_free h) p)"
    "params = params_addr (next_free h) p"
    "next_free h0 = Suc params"
    "newParams = params_addr (next_free h0) p"
    "next_free h1 = Suc newParams"
    "params_at h1 (next_free h) p"
    "params_at h1 (next_free h0) p"
    "st_inv (next_free h) p (next_free h0) newParams h1 (params_cell (next_free h0) p) p"
    by blast
  let ?b0 = "next_free h"
  let ?b1 = "next_free h0"
  let ?i = "intensity st"
  let ?L = "refs_from (synths_addr ?b1 p + 1) 5 (length (patterns p))"
  let ?O = "refs_from (synths_addr ?b0 p + 1) 5 (length (patterns p))"
  let ?pa = "patterns_addr ?b1 p"
  note o = addr_order[of ?b1 p]
  note o0 = addr_order[of ?b0 p]
  have c1: "cells h1 newParams = Some (ParamsObj (params_cell ?b1 p))"
    using su(9) su(6) by (simp add: params_at_def)
  have gl: "get_refs h1 ?pa = Some ?L" by (rule orig_pattern_refs[OF su(9)])
  have go: "get_refs h1 (patterns_addr ?b0 p) = Some ?O" by (rule orig_pattern_refs[OF su(8)])
  have unchanged: "load_params h1 newParams = Some p" "load_params h1 params = Some p"
    using st_inv_loads[OF su(10)] su(4) by simp_all
  have so: "same_on lo hi h1 (put ?pa (RefArray rs) h1)" if "hi \<le> ?pa" for lo hi rs
    using that by (auto simp: same_on_def cells_put)
  have Lmap: "map (load_pattern (put ?pa (RefArray rs) h1)) ?L = map Some (patterns p)" for rs
    by (rule comp_pattern_refs[OF su(9) so]) simp
  have Omap: "map (load_pattern (put ?pa (RefArray rs) h1)) ?O = map Some (patterns p)" for rs
    by (rule comp_pattern_refs[OF su(8) so]) (use o o0 su(4,5) in simp)
  have upd: "load_params (put ?pa (RefArray rs) h1) newParams = Some (p\<lparr>patterns := ps\<rparr>)
           \<and> load_params (put ?pa (RefArray rs) h1) params = Some p"
    if rs: "map (load_pattern (put ?pa (RefArray rs) h1)) rs = map Some ps" for rs ps
  proof -
    let ?hF = "put ?pa (RefArray rs) h1"
    have cF: "cells ?hF newParams = Some (ParamsObj (params_cell ?b1 p))"
      using c1 o su(6) by (simp add: cells_put)
    have l1: "get_strings ?hF (c_scale (params_cell ?b1 p)) = Some (scale p)"
      using comp_scale[OF su(9), of ?hF] o by (simp add: params_cell_def cells_put)
    have l2: "get_signature ?hF (c_timeSignature (params_cell ?b1 p)) = Some (timeSignature p)"
      using comp_signature[OF su(9), of ?hF] o by (simp add: params_cell_def cells_put)
    have l3: "load_effects ?hF (c_effects (params_cell ?b1 p)) = Some (effects p)"
      using comp_effects[OF su(9) so] o by (simp add: params_cell_def)
    have l4: "load_synths ?hF (c_synths (params_cell ?b1 p)) = Some (synths p)"
      using comp_synths[OF su(9) so] o by (simp add: params_cell_def)
    from rs have l5: "load_patterns ?hF (c_patterns (params_cell ?b1 p)) = Some ps"
      by (simp add: params_cell_def load_patterns_def get_refs_def cells_put those_map_Some)
    have ldF: "load_params ?hF newParams = Some (p\<lparr>patterns := ps\<rparr>)"
      using load_params_parts[OF cF l1 l2 l3 l4 l5] by (simp add: params_cell_def)
    have "same_on ?b0 (Suc (params_addr ?b0 p)) h1 ?hF"
      using su(4,5) o by (auto simp: same_on_def cells_put)
    from params_at_load[OF params_at_same[OF su(8) this]] su(4)
    have "load_params ?hF params = Some p" by simp
    with ldF show ?thesis by simp
  qed
  have gn: "get_params h1 newParams = Some (params_cell ?b1 p)"
    using c1 by (simp add: get_params_def)
  show ?thesis
  proof (cases "''patterns'' \<in> set locked")
    case True
    then have "applyMutation p st locked rnd n = Some (p, n)"
      "applyMutation_store h0 params st locked rnd n = Some (h1, newParams, n)"
      by (simp_all add: applyMutation_def applyMutation_store_def su(1,2,3) ty Let_def)
    with unchanged show ?thesis by auto
  next
    case False
    have run0: "applyMutation_store h0 params st locked rnd n =
        (if ?i > 0.6 \<and> length (patterns p) > 1
         then Some (put ?pa (RefArray (butlast ?L)) h1, newParams, n)
         else if ?i > 0.7 \<and> length (patterns p) < 4
         then (case ?O of [] \<Rightarrow> None
               | first # _ \<Rightarrow> Some (put ?pa (RefArray (?L @ [first])) h1, newParams, n))
         else Some (h1, newParams, n))"
      using False gl go
      by (simp add: applyMutation_store_def su(1,2,3) ty Let_def gn
          params_cell_def[of ?b1] params_cell_def[of ?b0] refs_from_length cong: list.case_cong)
    have val0: "applyMutation p st locked rnd n =
        (case mutateLayers (patterns p) (patterns p) ?i of
           None \<Rightarrow> None | Some ps \<Rightarrow> Some (p\<lparr>patterns := ps\<rparr>, n))"
      using False by (simp add: applyMutation_def ty Let_def)
    consider (pop) "?i > 0.6 \<and> length (patterns p) > 1"
      | (push) "\<not> (?i > 0.6 \<and> length (patterns p) > 1)" "?i > 0.7 \<and> length (patterns p) < 4"
      | (none) "\<not> (?i > 0.6 \<and> length (patterns p) > 1)" "\<not> (?i > 0.7 \<and> length (patterns p) < 4)"
      by blast
    then show ?thesis
    proof cases
      case pop
      have m: "map (load_pattern (put ?pa (RefArray (butlast ?L)) h1)) (butlast ?L)
                 = map Some (butlast (patterns p))"
        using Lmap[of "butlast ?L"] by (simp add: map_butlast)
      from upd[OF m] pop show ?thesis
        by (simp add: run0 val0 mutateLayers_def)
    next
      case push
      show ?thesis
      proof (cases "patterns p")
        case Nil
        with push show ?thesis by (simp add: run0 val0 mutateLayers_def)
      next
        case (Cons p0 rest)
        have "length ?O = Suc (length rest)" by (simp add: refs_from_length Cons)
        then obtain first rest' where O: "?O = first # rest'" by (cases ?O) simp_all
        let ?hF = "put ?pa (RefArray (?L @ [first])) h1"
        have f: "load_pattern ?hF first = Some p0"
          by (rule map_heads[OF Omap[of "?L @ [first]"] O Cons])
        have m: "map (load_pattern ?hF) (?L @ [first]) = map Some (patterns p @ [p0])"
          using Lmap[of "?L @ [first]"] f by simp
        from upd[OF m] push Cons O show ?thesis
          by (simp add: run0 val0 mutateLayers_def)
      qed
    next
      case none
      have r: "applyMutation_store h0 params st locked rnd n = Some (h1, newParams, n)"
        unfolding run0 if_not_P[OF none(1)] if_not_P[OF none(2)] ..
      have "mutateLayers (patterns p) (patterns p) ?i = Some (patterns p)"
        unfolding mutateLayers_def if_not_P[OF none(1)] if_not_P[OF none(2)] ..
      then have v: "applyMutation p st locked rnd n = Some (p, n)"
        by (simp add: val0)
      from unchanged show ?thesis unfolding r v by simp
    qed
  qed
qed

text \<open>
  The applicator on the object store against the applicator on values. From a store
  that holds \<open>p\<close> at \<open>params\<close>, the source's \<open>applyMutation\<close> fails exactly when the
  value-level function does; otherwise it consumes the same draws, the object it
  returns reads as the value \<open>v\<close> of the value-level function, and the argument reads
  as \<open>p\<close> afterwards in every case but one: a timbral mutation with \<open>synths\<close> unlocked
  leaves the mutated voices in the argument too.
\<close>


theorem applyMutation_store_refines:
  assumes sp: "store_params p h = (params, h0)"
  shows "(applyMutation p st locked rnd n = None \<longrightarrow>
            applyMutation_store h0 params st locked rnd n = None)
       \<and> (\<forall>v n'. applyMutation p st locked rnd n = Some (v, n') \<longrightarrow>
            (\<exists>hF out. applyMutation_store h0 params st locked rnd n = Some (hF, out, n')
               \<and> load_params hF out = Some v
               \<and> load_params hF params
                   = Some (if strategy_type st = timbral \<and> ''synths'' \<notin> set locked
                           then p\<lparr>synths := synths v\<rparr> else p)))"
proof (cases "strategy_type st")
  case harmonic
  show ?thesis
  proof (intro conjI impI allI)
    assume "applyMutation p st locked rnd n = None"
    with harmonic show "applyMutation_store h0 params st locked rnd n = None"
      by (simp add: applyMutation_None)
  next
    fix v n' assume va: "applyMutation p st locked rnd n = Some (v, n')"
    from harmonic_refine[OF sp harmonic va] harmonic
    show "\<exists>hF out. applyMutation_store h0 params st locked rnd n = Some (hF, out, n')
               \<and> load_params hF out = Some v
               \<and> load_params hF params
                   = Some (if strategy_type st = timbral \<and> ''synths'' \<notin> set locked
                           then p\<lparr>synths := synths v\<rparr> else p)"
      by simp
  qed
next
  case rhythmic
  show ?thesis
  proof (intro conjI impI allI)
    assume "applyMutation p st locked rnd n = None"
    with rhythmic show "applyMutation_store h0 params st locked rnd n = None"
      by (simp add: applyMutation_None)
  next
    fix v n' assume va: "applyMutation p st locked rnd n = Some (v, n')"
    from rhythmic_refine[OF sp rhythmic va] rhythmic
    show "\<exists>hF out. applyMutation_store h0 params st locked rnd n = Some (hF, out, n')
               \<and> load_params hF out = Some v
               \<and> load_params hF params
                   = Some (if strategy_type st = timbral \<and> ''synths'' \<notin> set locked
                           then p\<lparr>synths := synths v\<rparr> else p)"
      by simp
  qed
next
  case timbral
  show ?thesis
  proof (intro conjI impI allI)
    assume "applyMutation p st locked rnd n = None"
    with timbral show "applyMutation_store h0 params st locked rnd n = None"
      by (simp add: applyMutation_None)
  next
    fix v n' assume va: "applyMutation p st locked rnd n = Some (v, n')"
    from timbral_refine[OF sp timbral va] timbral
    show "\<exists>hF out. applyMutation_store h0 params st locked rnd n = Some (hF, out, n')
               \<and> load_params hF out = Some v
               \<and> load_params hF params
                   = Some (if strategy_type st = timbral \<and> ''synths'' \<notin> set locked
                           then p\<lparr>synths := synths v\<rparr> else p)"
      by simp
  qed
next
  case structural
  with structural_refine[OF sp structural, of locked rnd n] show ?thesis by simp
next
  case textural
  show ?thesis
  proof (intro conjI impI allI)
    assume "applyMutation p st locked rnd n = None"
    with textural show "applyMutation_store h0 params st locked rnd n = None"
      by (simp add: applyMutation_None)
  next
    fix v n' assume va: "applyMutation p st locked rnd n = Some (v, n')"
    from textural_refine[OF sp textural va] textural
    show "\<exists>hF out. applyMutation_store h0 params st locked rnd n = Some (hF, out, n')
               \<and> load_params hF out = Some v
               \<and> load_params hF params
                   = Some (if strategy_type st = timbral \<and> ''synths'' \<notin> set locked
                           then p\<lparr>synths := synths v\<rparr> else p)"
      by simp
  qed
next
  case radical
  show ?thesis
  proof (intro conjI impI allI)
    assume "applyMutation p st locked rnd n = None"
    with radical show "applyMutation_store h0 params st locked rnd n = None"
      by (simp add: applyMutation_None)
  next
    fix v n' assume va: "applyMutation p st locked rnd n = Some (v, n')"
    from radical_refine[OF sp radical va] radical
    show "\<exists>hF out. applyMutation_store h0 params st locked rnd n = Some (hF, out, n')
               \<and> load_params hF out = Some v
               \<and> load_params hF params
                   = Some (if strategy_type st = timbral \<and> ''synths'' \<notin> set locked
                           then p\<lparr>synths := synths v\<rparr> else p)"
      by simp
  qed
qed

end
